theory Spec2Isabelle
  imports Complex_Main "HOL-Library.Char_ord" "HOL-Library.List_Lexorder" "HOL-Library.Multiset"
begin

section \<open>JavaScript values\<close>

text \<open>
  The record store of \<^verbatim>\<open>src/db/database.js\<close> and the analytics of
  \<^verbatim>\<open>src/utils/analytics.js\<close> are embedded as HOL functions. Modelling decisions:
  \<^item> A JavaScript number is \<open>NaN\<close>, an infinity or a finite value. A finite value is the
    real number that the double denotes, and every arithmetic operation of the analytics
    rounds its exact result to the nearest double. The two zeros are one zero.
  \<^item> A string is a \<open>string\<close>; \<open>\<le>\<close> on strings is the lexicographic order on
    character codes, which is what the JavaScript operators \<open><=\<close> and \<open>>=\<close> compute on
    two strings.
  \<^item> An object used as a dictionary is the association list of its own properties, with
    distinct keys. The theorems hold for every order of the list, hence for the order in
    which \<open>Object.values\<close> enumerates. What an object inherits from \<open>Object.prototype\<close>
    is modelled where the caller chooses the key: in the daily entries.
  \<^item> \<open>localStorage\<close> and \<open>AsyncStorage\<close> are a medium that is present and does not
    throw, and what it holds was written by the store itself.
  \<^item> \<open>Date.now()\<close> and \<open>new Date().toISOString()\<close> are inputs of the operation that
    calls them.
  \<^item> \<open>String.prototype.localeCompare\<close> belongs to the platform and is a parameter.
\<close>

datatype jsnum = NaN | NegInfinity | Finite real | PosInfinity

datatype jsval =
    JUndefined
  | JNull
  | JBool bool
  | JNum jsnum
  | JStr string
  | JArr "jsval list"
  | JObj "(string \<times> jsval) list"

type_synonym jsobj = "(string \<times> jsval) list"

text \<open>The operator \<open>typeof\<close>.\<close>

fun typeof :: "jsval \<Rightarrow> string" where
  "typeof JUndefined = ''undefined''"
| "typeof JNull = ''object''"
| "typeof (JBool b) = ''boolean''"
| "typeof (JNum n) = ''number''"
| "typeof (JStr s) = ''string''"
| "typeof (JArr xs) = ''object''"
| "typeof (JObj ps) = ''object''"

text \<open>\<open>ToBoolean\<close>: what \<open>!v\<close>, \<open>v && e\<close> and \<open>v || e\<close> test.\<close>

fun truthy :: "jsval \<Rightarrow> bool" where
  "truthy JUndefined = False"
| "truthy JNull = False"
| "truthy (JBool b) = b"
| "truthy (JNum NaN) = False"
| "truthy (JNum (Finite r)) = (r \<noteq> 0)"
| "truthy (JNum NegInfinity) = True"
| "truthy (JNum PosInfinity) = True"
| "truthy (JStr s) = (s \<noteq> [])"
| "truthy (JArr xs) = True"
| "truthy (JObj ps) = True"

text \<open>The relational operators \<open><\<close> and \<open>>\<close> on two numbers: false when either is \<open>NaN\<close>.\<close>

fun num_lt :: "jsnum \<Rightarrow> jsnum \<Rightarrow> bool" where
  "num_lt NaN b = False"
| "num_lt a NaN = False"
| "num_lt PosInfinity b = False"
| "num_lt a NegInfinity = False"
| "num_lt NegInfinity b = True"
| "num_lt a PosInfinity = True"
| "num_lt (Finite x) (Finite y) = (x < y)"

definition num_gt :: "jsnum \<Rightarrow> jsnum \<Rightarrow> bool" where
  "num_gt a b = num_lt b a"

subsection \<open>Objects as dictionaries\<close>

text \<open>\<open>obj[k]\<close> on an own property, \<open>undefined\<close> being \<open>None\<close>.\<close>

fun obj_get :: "('k \<times> 'v) list \<Rightarrow> 'k \<Rightarrow> 'v option" where
  "obj_get [] k = None"
| "obj_get ((k', v) # ps) k = (if k' = k then Some v else obj_get ps k)"

text \<open>\<open>obj[k] = v\<close>: an existing property keeps its place, a new one is added last.\<close>

fun obj_set :: "('k \<times> 'v) list \<Rightarrow> 'k \<Rightarrow> 'v \<Rightarrow> ('k \<times> 'v) list" where
  "obj_set [] k v = [(k, v)]"
| "obj_set ((k', v') # ps) k v =
     (if k' = k then (k, v) # ps else (k', v') # obj_set ps k v)"

text \<open>
  The names every object inherits from \<open>Object.prototype\<close>. Each of them reads as a
  function, and \<open>__proto__\<close> as the prototype: all are truthy. Assigning to \<open>__proto__\<close>
  on an object that has no own property of that name runs the inherited setter, which
  replaces the prototype by the value and adds no property.
\<close>

definition Object_prototype_names :: "string list" where
  "Object_prototype_names =
     [''constructor'', ''__defineGetter__'', ''__defineSetter__'', ''hasOwnProperty'',
      ''__lookupGetter__'', ''__lookupSetter__'', ''isPrototypeOf'', ''propertyIsEnumerable'',
      ''toString'', ''valueOf'', ''__proto__'', ''toLocaleString'']"

definition obj_assign :: "(string \<times> 'v) list \<Rightarrow> string \<Rightarrow> 'v \<Rightarrow> (string \<times> 'v) list" where
  "obj_assign ps k v =
     (if k = ''__proto__'' \<and> obj_get ps k = None then ps else obj_set ps k v)"

text \<open>\<open>delete obj[k]\<close>.\<close>

fun obj_delete :: "('k \<times> 'v) list \<Rightarrow> 'k \<Rightarrow> ('k \<times> 'v) list" where
  "obj_delete [] k = []"
| "obj_delete ((k', v) # ps) k = (if k' = k then obj_delete ps k else (k', v) # obj_delete ps k)"

text \<open>\<open>Object.values(obj)\<close>.\<close>

definition Object_values :: "('k \<times> 'v) list \<Rightarrow> 'v list" where
  "Object_values ps = map snd ps"

text \<open>Property access \<open>obj.k\<close> on an object of JavaScript values.\<close>

definition get_prop :: "jsobj \<Rightarrow> string \<Rightarrow> jsval" where
  "get_prop ob k = (case obj_get ob k of None \<Rightarrow> JUndefined | Some v \<Rightarrow> v)"

text \<open>
  The spread \<open>{...base, ...src}\<close>: the own properties of \<open>src\<close> are assigned onto \<open>base\<close>
  from first to last.
\<close>

fun spread :: "jsobj \<Rightarrow> jsobj \<Rightarrow> jsobj" where
  "spread base [] = base"
| "spread base ((k, v) # ps) = spread (obj_set base k v) ps"

subsection \<open>What \<open>JSON.parse(JSON.stringify(v))\<close> gives back\<close>

text \<open>
  Every document is written with \<open>JSON.stringify\<close> and read with \<open>JSON.parse\<close>. A number
  that is not finite is written as \<open>null\<close>; a property whose value is \<open>undefined\<close> is
  left out; an \<open>undefined\<close> array element is written as \<open>null\<close>.
\<close>

fun json_number :: "jsnum \<Rightarrow> real option" where
  "json_number (Finite r) = Some r"
| "json_number NaN = None"
| "json_number NegInfinity = None"
| "json_number PosInfinity = None"

fun json_roundtrip :: "jsval \<Rightarrow> jsval" where
  "json_roundtrip JUndefined = JUndefined"
| "json_roundtrip JNull = JNull"
| "json_roundtrip (JBool b) = JBool b"
| "json_roundtrip (JNum n) = (case json_number n of None \<Rightarrow> JNull | Some r \<Rightarrow> JNum (Finite r))"
| "json_roundtrip (JStr s) = JStr s"
| "json_roundtrip (JArr xs) =
     JArr (map (\<lambda>x. if x = JUndefined then JNull else json_roundtrip x) xs)"
| "json_roundtrip (JObj ps) =
     JObj (map (\<lambda>p. (fst p, json_roundtrip (snd p))) (filter (\<lambda>p. snd p \<noteq> JUndefined) ps))"

definition json_object :: "jsobj \<Rightarrow> jsobj" where
  "json_object ps =
     map (\<lambda>p. (fst p, json_roundtrip (snd p))) (filter (\<lambda>p. snd p \<noteq> JUndefined) ps)"

section \<open>The record store (\<^verbatim>\<open>src/db/database.js\<close>)\<close>

subsection \<open>Errors\<close>

text \<open>
  The store throws \<open>Error\<close> objects that differ only in their message. The three kinds are:
  a list of validation messages (\<open>Invalid data: ...\<close>, \<open>Invalid profile data: ...\<close>),
  a malformed argument (\<open>Invalid date format\<close>) and a missing record
  (\<open>Medicine not found\<close>). The \<open>catch\<close> blocks that prefix the message and throw again do
  not change the kind.
\<close>

datatype error =
    ValidationError "string list"
  | InputError
  | NotFoundError

subsection \<open>Persisted documents\<close>

text \<open>
  A daily entry as it is read back from storage. The three metrics have passed
  \<open>validateDailyEntry\<close> and a JSON round trip, so each is a finite number or \<open>null\<close>
  (\<open>None\<close>).
\<close>

record daily_entry =
  entry_id :: nat
  date :: string
  water_ml :: "real option"
  calories :: "real option"
  steps :: "real option"
  created_at :: string

text \<open>
  A stored medicine; the fields \<open>id\<close>, \<open>name\<close>, \<open>created_at\<close> and \<open>updated_at\<close> of the
  source carry a prefix. \<open>None\<close> is a property that is missing or \<open>null\<close>.
\<close>

record medicine =
  med_id :: nat
  med_name :: string
  dosage :: string
  frequency :: string
  times :: "real list"
  instructions :: "string option"
  total_doses :: "real option"
  doses_taken :: "real option"
  med_created_at :: string
  med_updated_at :: "string option"

text \<open>An entry of the dose history.\<close>

record dose =
  dose_id :: nat
  medicine_id :: nat
  dose_time :: int
  taken_at :: string

text \<open>
  The key-value medium holds four JSON documents, one per key of \<open>STORAGE_KEYS\<close>;
  \<open>None\<close> is a key that has never been written (\<open>getItem\<close> returns \<open>null\<close>).
  \<open>localStorage\<close> and \<open>AsyncStorage\<close> are modelled as a medium that is present and does
  not throw; the web branch and the mobile branch of every operation are then the same
  function.
\<close>

record storage =
  DAILY_ENTRIES :: "(string \<times> daily_entry) list option"
  USER_PROFILE :: "jsobj option"
  MEDICINES :: "(nat \<times> medicine) list option"
  MEDICINE_DOSE_HISTORY :: "dose list option"

text \<open>\<open>JSON.parse(getItem(key) || "{}")\<close> and \<open>JSON.parse(getItem(key) || "[]")\<close>.\<close>

definition parse_or_empty :: "'a list option \<Rightarrow> 'a list" where
  "parse_or_empty doc = (case doc of None \<Rightarrow> [] | Some xs \<Rightarrow> xs)"

record run_result =
  changes :: nat
  lastInsertRowid :: nat

subsection \<open>Validation\<close>

text \<open>\<open>typeof v !== "number" || v < lo || v > hi\<close>\<close>

definition not_number_within :: "jsval \<Rightarrow> real \<Rightarrow> real \<Rightarrow> bool" where
  "not_number_within v lo hi =
     (case v of
        JNum n \<Rightarrow> num_lt n (Finite lo) \<or> num_gt n (Finite hi)
      | _ \<Rightarrow> True)"

definition validateDailyEntry :: "jsval \<Rightarrow> jsval \<Rightarrow> jsval \<Rightarrow> string list" where
  "validateDailyEntry water calorie step =
     (if not_number_within water 0 10000
      then [''Water intake must be between 0 and 10,000 ml''] else []) @
     (if not_number_within calorie 0 10000
      then [''Calories must be between 0 and 10,000''] else []) @
     (if not_number_within step 0 100000
      then [''Steps must be between 0 and 100,000''] else [])"

text \<open>\<open>profile.f && (typeof profile.f !== "number" || profile.f < lo || profile.f > hi)\<close>\<close>

definition bad_profile_number :: "jsobj \<Rightarrow> string \<Rightarrow> real \<Rightarrow> real \<Rightarrow> bool" where
  "bad_profile_number profile f lo hi =
     (truthy (get_prop profile f) \<and> not_number_within (get_prop profile f) lo hi)"

definition validateUserProfile :: "jsobj \<Rightarrow> string list" where
  "validateUserProfile profile =
     (if truthy (get_prop profile ''name'') \<and> typeof (get_prop profile ''name'') \<noteq> ''string''
      then [''Name must be a string''] else []) @
     (if bad_profile_number profile ''weight_kg'' 20 500
      then [''Weight must be between 20 and 500 kg''] else []) @
     (if bad_profile_number profile ''height_cm'' 50 300
      then [''Height must be between 50 and 300 cm''] else []) @
     (if bad_profile_number profile ''daily_water_goal_ml'' 500 5000
      then [''Water goal must be between 500 and 5,000 ml''] else []) @
     (if bad_profile_number profile ''daily_calorie_goal'' 1200 4000
      then [''Calorie goal must be between 1,200 and 4,000 calories''] else []) @
     (if bad_profile_number profile ''daily_step_goal'' 1000 50000
      then [''Step goal must be between 1,000 and 50,000 steps''] else [])"

subsection \<open>Initialisation\<close>

definition defaultProfile :: jsobj where
  "defaultProfile =
     [(''id'', JNum (Finite 1)), (''name'', JStr []), (''birthdate'', JNull),
      (''weight_kg'', JNull), (''height_cm'', JNull),
      (''daily_water_goal_ml'', JNum (Finite 2000)),
      (''daily_calorie_goal'', JNum (Finite 2000)),
      (''daily_step_goal'', JNum (Finite 10000))]"

definition initDatabase :: "storage \<Rightarrow> storage" where
  "initDatabase s =
     (let s1 = (if DAILY_ENTRIES s = None then s\<lparr>DAILY_ENTRIES := Some []\<rparr> else s)
      in if USER_PROFILE s1 = None
         then s1\<lparr>USER_PROFILE := Some (json_object defaultProfile)\<rparr> else s1)"

subsection \<open>Daily entries\<close>

text \<open>
  \<open>entries[date] || null\<close>: a stored entry is an object, hence truthy, and so is what the
  parsed object inherits under the names of \<open>Object.prototype\<close>.
\<close>

datatype entry_lookup = Entry daily_entry | Inherited string | NoEntry

definition getTodayEntry :: "storage \<Rightarrow> string \<Rightarrow> entry_lookup" where
  "getTodayEntry s d =
     (case obj_get (parse_or_empty (DAILY_ENTRIES s)) d of
        Some entry \<Rightarrow> Entry entry
      | None \<Rightarrow> if d \<in> set Object_prototype_names then Inherited d else NoEntry)"

text \<open>
  \<open>saveDailyEntry(date, water_ml, calories, steps)\<close>, with \<open>now_ms\<close> the value of
  \<open>Date.now()\<close> and \<open>now_iso\<close> that of \<open>new Date().toISOString()\<close>. An operation
  returns what the caller gets (\<open>Inl\<close> an error thrown, \<open>Inr\<close> the value returned)
  together with the medium it leaves behind. Past the two guards the date is a string and
  the three metrics are numbers, so the last case is never taken.
\<close>

definition saveDailyEntry ::
  "nat \<Rightarrow> string \<Rightarrow> storage \<Rightarrow> jsval \<Rightarrow> jsval \<Rightarrow> jsval \<Rightarrow> jsval
     \<Rightarrow> (error + run_result) \<times> storage"
where
  "saveDailyEntry now_ms now_iso s d water calorie step =
     (let validationErrors = validateDailyEntry water calorie step in
      if length validationErrors > 0 then (Inl (ValidationError validationErrors), s)
      else if \<not> truthy d \<or> typeof d \<noteq> ''string'' then (Inl InputError, s)
      else
        (case (d, water, calorie, step) of
           (JStr key, JNum w, JNum c, JNum st) \<Rightarrow>
             let entries = parse_or_empty (DAILY_ENTRIES s);
                 entries' = obj_assign entries key
                   \<lparr>entry_id = now_ms, date = key, water_ml = json_number w,
                    calories = json_number c, steps = json_number st, created_at = now_iso\<rparr>
             in (Inr \<lparr>changes = 1, lastInsertRowid = now_ms\<rparr>,
                 s\<lparr>DAILY_ENTRIES := Some entries'\<rparr>)
         | _ \<Rightarrow> (Inl InputError, s)))"

text \<open>
  \<open>Array.prototype.sort(compare)\<close>: a stable sort; \<open>a\<close> stays before \<open>b\<close> unless
  \<open>compare(a, b) > 0\<close>.
\<close>

fun sort_insert :: "('a \<Rightarrow> 'a \<Rightarrow> int) \<Rightarrow> 'a \<Rightarrow> 'a list \<Rightarrow> 'a list" where
  "sort_insert compare x [] = [x]"
| "sort_insert compare x (y # ys) =
     (if compare x y \<le> 0 then x # y # ys else y # sort_insert compare x ys)"

definition array_sort :: "('a \<Rightarrow> 'a \<Rightarrow> int) \<Rightarrow> 'a list \<Rightarrow> 'a list" where
  "array_sort compare xs = foldr (sort_insert compare) xs []"

definition getEntriesForDateRange ::
  "(string \<Rightarrow> string \<Rightarrow> int) \<Rightarrow> storage \<Rightarrow> string \<Rightarrow> string \<Rightarrow> daily_entry list"
where
  "getEntriesForDateRange localeCompare s startDate endDate =
     (let entries = parse_or_empty (DAILY_ENTRIES s);
          result = filter (\<lambda>entry. date entry \<ge> startDate \<and> date entry \<le> endDate)
                     (Object_values entries)
      in array_sort (\<lambda>a b. localeCompare (date a) (date b)) result)"

subsection \<open>The user profile\<close>

text \<open>
  \<open>saveUserProfile(profile)\<close> builds \<open>{ id: 1, ...profile, updated_at: now }\<close>: the
  property \<open>id\<close> is defined first, the properties of \<open>profile\<close> are copied over it, and
  \<open>updated_at\<close> is defined last.
\<close>

definition saveUserProfile :: "string \<Rightarrow> storage \<Rightarrow> jsobj \<Rightarrow> (error + run_result) \<times> storage" where
  "saveUserProfile now_iso s profile =
     (let validationErrors = validateUserProfile profile in
      if length validationErrors > 0 then (Inl (ValidationError validationErrors), s)
      else
        let updatedProfile =
              obj_set (spread [(''id'', JNum (Finite 1))] profile) ''updated_at'' (JStr now_iso)
        in (Inr \<lparr>changes = 1, lastInsertRowid = 1\<rparr>,
            s\<lparr>USER_PROFILE := Some (json_object updatedProfile)\<rparr>))"

definition getUserProfile :: "storage \<Rightarrow> jsobj option" where
  "getUserProfile s = USER_PROFILE s"

subsection \<open>Medicines and the dose history\<close>

text \<open>
  Medicine ids are the numbers \<open>Date.now()\<close> returned when the medicine was saved, and
  \<open>medicines[id]\<close> looks the number up by its decimal spelling; the medicines map is
  keyed by the number. The stored \<open>doses_taken\<close> is a number or \<open>null\<close>.
\<close>

definition deleteMedicine :: "storage \<Rightarrow> nat \<Rightarrow> (error + unit) \<times> storage" where
  "deleteMedicine s i =
     (let medicines = parse_or_empty (MEDICINES s)
      in (Inr (), s\<lparr>MEDICINES := Some (obj_delete medicines i)\<rparr>))"

text \<open>\<open>x || 0\<close> on a stored number or \<open>null\<close>.\<close>

definition or_zero :: "real option \<Rightarrow> real" where
  "or_zero x = (case x of None \<Rightarrow> 0 | Some r \<Rightarrow> if r \<noteq> 0 then r else 0)"

definition recordDoseTaken ::
  "nat \<Rightarrow> string \<Rightarrow> storage \<Rightarrow> nat \<Rightarrow> int \<Rightarrow> (error + unit) \<times> storage"
where
  "recordDoseTaken now_ms now s medicineId doseTime =
     (let medicines = parse_or_empty (MEDICINES s);
          s1 = (case obj_get medicines medicineId of
                  Some m \<Rightarrow>
                    s\<lparr>MEDICINES := Some (obj_set medicines medicineId
                         (m\<lparr>doses_taken := Some (or_zero (doses_taken m) + 1)\<rparr>))\<rparr>
                | None \<Rightarrow> s);
          history = parse_or_empty (MEDICINE_DOSE_HISTORY s1);
          history' = history @
            [\<lparr>dose_id = now_ms, medicine_id = medicineId, dose_time = doseTime, taken_at = now\<rparr>]
      in (Inr (), s1\<lparr>MEDICINE_DOSE_HISTORY := Some history'\<rparr>))"

section \<open>Analytics (\<^verbatim>\<open>src/utils/analytics.js\<close>)\<close>

subsection \<open>Doubles\<close>

text \<open>
  A finite number is a double, and every arithmetic operation returns the double nearest to
  its exact result, a tie going to the even significand. The binary exponent of a positive
  real is found by halving or doubling it, at most 1024 and 1022 times: the exponents of
  doubles range from \<open>-1022\<close> to \<open>1023\<close>, and the numbers below the smallest normal double share the
  spacing of the smallest exponent.
\<close>

fun exponent_up :: "nat \<Rightarrow> real \<Rightarrow> nat" where
  "exponent_up 0 x = 0"
| "exponent_up (Suc n) x = (if x < 2 then 0 else Suc (exponent_up n (x / 2)))"

fun exponent_down :: "nat \<Rightarrow> real \<Rightarrow> nat" where
  "exponent_down 0 x = 0"
| "exponent_down (Suc n) x = (if 1 \<le> x then 0 else Suc (exponent_down n (2 * x)))"

text \<open>The distance between two neighbouring doubles around a positive real.\<close>

definition ulp :: "real \<Rightarrow> real" where
  "ulp x = (if 1 \<le> x then 2 ^ exponent_up 1024 x / 2 ^ 52
            else 1 / (2 ^ exponent_down 1022 x * 2 ^ 52))"

text \<open>The nearest integer, a tie going to the even one.\<close>

definition round_half_even :: "real \<Rightarrow> int" where
  "round_half_even q =
     (let n = \<lfloor>q\<rfloor>; r = q - of_int n
      in if r < 1 / 2 then n else if 1 / 2 < r then n + 1 else if even n then n else n + 1)"

definition round_double :: "real \<Rightarrow> real" where
  "round_double x = (if x = 0 then 0 else of_int (round_half_even (x / ulp \<bar>x\<bar>)) * ulp \<bar>x\<bar>)"

text \<open>
  The number that an operation with exact result \<open>x\<close> returns: the nearest double, or an
  infinity when that is beyond the largest double.
\<close>

definition fl :: "real \<Rightarrow> jsnum" where
  "fl x =
     (let y = round_double x
      in if 2 ^ 1024 \<le> y then PosInfinity
         else if y \<le> - (2 ^ 1024) then NegInfinity
         else Finite y)"

subsection \<open>Arithmetic on numbers\<close>

text \<open>
  \<open>+\<close>, \<open>-\<close>, \<open>*\<close> and \<open>/\<close> on numbers that may be \<open>NaN\<close> or infinite. Zero is positive
  zero: a non-zero number divided by zero is the infinity of the sign of the dividend.
\<close>

definition signed_infinity :: "bool \<Rightarrow> jsnum" where
  "signed_infinity negative = (if negative then NegInfinity else PosInfinity)"

fun num_add :: "jsnum \<Rightarrow> jsnum \<Rightarrow> jsnum" where
  "num_add NaN b = NaN"
| "num_add a NaN = NaN"
| "num_add (Finite x) (Finite y) = fl (x + y)"
| "num_add PosInfinity NegInfinity = NaN"
| "num_add NegInfinity PosInfinity = NaN"
| "num_add PosInfinity b = PosInfinity"
| "num_add NegInfinity b = NegInfinity"
| "num_add a PosInfinity = PosInfinity"
| "num_add a NegInfinity = NegInfinity"

fun num_sub :: "jsnum \<Rightarrow> jsnum \<Rightarrow> jsnum" where
  "num_sub NaN b = NaN"
| "num_sub a NaN = NaN"
| "num_sub (Finite x) (Finite y) = fl (x - y)"
| "num_sub PosInfinity PosInfinity = NaN"
| "num_sub NegInfinity NegInfinity = NaN"
| "num_sub PosInfinity b = PosInfinity"
| "num_sub NegInfinity b = NegInfinity"
| "num_sub a PosInfinity = NegInfinity"
| "num_sub a NegInfinity = PosInfinity"

fun num_mul :: "jsnum \<Rightarrow> jsnum \<Rightarrow> jsnum" where
  "num_mul NaN b = NaN"
| "num_mul a NaN = NaN"
| "num_mul (Finite x) (Finite y) = fl (x * y)"
| "num_mul (Finite x) PosInfinity = (if x = 0 then NaN else signed_infinity (x < 0))"
| "num_mul (Finite x) NegInfinity = (if x = 0 then NaN else signed_infinity (0 < x))"
| "num_mul PosInfinity (Finite y) = (if y = 0 then NaN else signed_infinity (y < 0))"
| "num_mul NegInfinity (Finite y) = (if y = 0 then NaN else signed_infinity (0 < y))"
| "num_mul PosInfinity PosInfinity = PosInfinity"
| "num_mul PosInfinity NegInfinity = NegInfinity"
| "num_mul NegInfinity PosInfinity = NegInfinity"
| "num_mul NegInfinity NegInfinity = PosInfinity"

fun num_div :: "jsnum \<Rightarrow> jsnum \<Rightarrow> jsnum" where
  "num_div NaN b = NaN"
| "num_div a NaN = NaN"
| "num_div (Finite x) (Finite y) =
     (if y = 0 then (if x = 0 then NaN else signed_infinity (x < 0)) else fl (x / y))"
| "num_div (Finite x) PosInfinity = Finite 0"
| "num_div (Finite x) NegInfinity = Finite 0"
| "num_div PosInfinity (Finite y) = signed_infinity (y < 0)"
| "num_div NegInfinity (Finite y) = signed_infinity (0 \<le> y)"
| "num_div PosInfinity PosInfinity = NaN"
| "num_div PosInfinity NegInfinity = NaN"
| "num_div NegInfinity PosInfinity = NaN"
| "num_div NegInfinity NegInfinity = NaN"

text \<open>
  \<open>Math.round\<close>: the nearest integer, a tie going up; the result is exact. \<open>Math.min\<close> of
  two numbers is \<open>NaN\<close> when either is.
\<close>

fun Math_round :: "jsnum \<Rightarrow> jsnum" where
  "Math_round (Finite x) = Finite (of_int \<lfloor>x + 1 / 2\<rfloor>)"
| "Math_round n = n"

fun Math_min :: "jsnum \<Rightarrow> jsnum \<Rightarrow> jsnum" where
  "Math_min NaN b = NaN"
| "Math_min a NaN = NaN"
| "Math_min a b = (if num_lt b a then b else a)"

subsection \<open>Averages over a range\<close>

text \<open>
  What \<open>getWeeklyAverages\<close> returns; the fields \<open>water\<close>, \<open>calories\<close> and \<open>steps\<close> of the
  source carry a suffix here, since the daily entry has fields of the same name. The
  counter \<open>count\<close> is a natural number: it counts the elements of an array, so it stays far
  below \<open>2 ^ 53\<close> and is an exact double. The \<open>catch\<close> branch of \<open>getWeeklyAverages\<close>, which
  returns the all-zero window, is taken when the range query throws; on a medium that does
  not throw it never is.
\<close>

record window =
  water_avg :: jsnum
  calories_avg :: jsnum
  steps_avg :: jsnum
  daysTracked :: nat

record totals =
  water_total :: jsnum
  calories_total :: jsnum
  steps_total :: jsnum
  count_total :: nat

definition getWeeklyAverages ::
  "(string \<Rightarrow> string \<Rightarrow> int) \<Rightarrow> storage \<Rightarrow> string \<Rightarrow> string \<Rightarrow> window"
where
  "getWeeklyAverages localeCompare s startDate endDate =
     (let entries = getEntriesForDateRange localeCompare s startDate endDate in
      if length entries = 0
      then \<lparr>water_avg = Finite 0, calories_avg = Finite 0, steps_avg = Finite 0,
            daysTracked = 0\<rparr>
      else
        let tot = foldl
              (\<lambda>acc entry.
                 \<lparr>water_total = num_add (water_total acc) (Finite (or_zero (water_ml entry))),
                  calories_total =
                    num_add (calories_total acc) (Finite (or_zero (calories entry))),
                  steps_total = num_add (steps_total acc) (Finite (or_zero (steps entry))),
                  count_total = count_total acc + 1\<rparr>)
              \<lparr>water_total = Finite 0, calories_total = Finite 0, steps_total = Finite 0,
               count_total = 0\<rparr>
              entries
        in \<lparr>water_avg =
              Math_round (num_div (water_total tot) (Finite (real (count_total tot)))),
            calories_avg =
              Math_round (num_div (calories_total tot) (Finite (real (count_total tot)))),
            steps_avg =
              Math_round (num_div (steps_total tot) (Finite (real (count_total tot)))),
            daysTracked = count_total tot\<rparr>)"

subsection \<open>Progress and trend\<close>

text \<open>\<open>calculateProgress(current, goal)\<close> on two numbers.\<close>

definition calculateProgress :: "jsnum \<Rightarrow> jsnum \<Rightarrow> jsnum" where
  "calculateProgress current goal =
     (if goal = Finite 0 then Finite 0
      else Math_min (Math_round (num_mul (num_div current goal) (Finite 100))) (Finite 100))"

text \<open>
  \<open>analyzeTrend(currentWeek, previousWeek)\<close> on two windows. \<open>!x\<close> on a number holds for
  zero and for \<open>NaN\<close>. The three quotients may divide by zero.
\<close>

definition analyzeTrend :: "window \<Rightarrow> window \<Rightarrow> string" where
  "analyzeTrend currentWeek previousWeek =
     (if \<not> truthy (JNum (water_avg previousWeek)) \<and>
         \<not> truthy (JNum (calories_avg previousWeek)) \<and>
         \<not> truthy (JNum (steps_avg previousWeek))
      then ''new''
      else
        let waterChange =
              num_mul (num_div (num_sub (water_avg currentWeek) (water_avg previousWeek))
                               (water_avg previousWeek)) (Finite 100);
            calorieChange =
              num_mul (num_div (num_sub (calories_avg currentWeek) (calories_avg previousWeek))
                               (calories_avg previousWeek)) (Finite 100);
            stepChange =
              num_mul (num_div (num_sub (steps_avg currentWeek) (steps_avg previousWeek))
                               (steps_avg previousWeek)) (Finite 100);
            avgChange = num_div (num_add (num_add waterChange calorieChange) stepChange) (Finite 3)
        in if num_gt avgChange (Finite 10) then ''improving''
           else if num_lt avgChange (Finite (- 10)) then ''declining''
           else ''stable'')"

section \<open>Notions of the specification\<close>

text \<open>A medium on which no key has been written yet.\<close>

definition empty_storage :: storage where
  "empty_storage =
     \<lparr>DAILY_ENTRIES = None, USER_PROFILE = None, MEDICINES = None, MEDICINE_DOSE_HISTORY = None\<rparr>"

text \<open>A value that is a number in \<open>lo..hi\<close>: \<open>NaN\<close> and the infinities are in no range.\<close>

fun number_in :: "jsval \<Rightarrow> real \<Rightarrow> real \<Rightarrow> bool" where
  "number_in (JNum (Finite r)) lo hi = (lo \<le> r \<and> r \<le> hi)"
| "number_in v lo hi = False"

text \<open>
  A calendar date string, as the data model has it for the \<open>date\<close> of a daily entry and
  as the screens pass it: ten characters \<open>YYYY-MM-DD\<close>, digits around two hyphens.
\<close>

definition is_digit :: "char \<Rightarrow> bool" where
  "is_digit c = (CHR ''0'' \<le> c \<and> c \<le> CHR ''9'')"

definition date_string :: "string \<Rightarrow> bool" where
  "date_string d =
     (length d = 10 \<and> list_all is_digit (take 4 d) \<and> d ! 4 = CHR ''-'' \<and>
      list_all is_digit (take 2 (drop 5 d)) \<and> d ! 7 = CHR ''-'' \<and>
      list_all is_digit (drop 8 d))"

text \<open>
  The entries of a stored entries map whose date lies in \<open>a..b\<close>, in the order of the
  map.
\<close>

definition found_in_range :: "(string \<times> daily_entry) list \<Rightarrow> string \<Rightarrow> string \<Rightarrow> daily_entry list"
where
  "found_in_range entries a b = filter (\<lambda>e. a \<le> date e \<and> date e \<le> b) (map snd entries)"

text \<open>The arithmetic mean of a list of numbers.\<close>

definition mean :: "real list \<Rightarrow> real" where
  "mean xs = sum_list xs / real (length xs)"

text \<open>
  A stored metric as the data model has it: a non-negative integer up to its bound, or
  \<open>null\<close>.
\<close>

definition whole_metric :: "real option \<Rightarrow> real \<Rightarrow> bool" where
  "whole_metric m hi =
     (case m of None \<Rightarrow> True | Some r \<Rightarrow> 0 \<le> r \<and> r \<le> hi \<and> of_int \<lfloor>r\<rfloor> = r)"

definition whole_metrics :: "daily_entry \<Rightarrow> bool" where
  "whole_metrics e =
     (whole_metric (water_ml e) 10000 \<and> whole_metric (calories e) 10000 \<and>
      whole_metric (steps e) 100000)"

text \<open>
  One comparison function that \<open>localeCompare\<close> may be: the order of the character codes.
  On dates written \<open>YYYY-MM-DD\<close> every collation agrees with it.
\<close>

definition code_unit_compare :: "string \<Rightarrow> string \<Rightarrow> int" where
  "code_unit_compare a b = (if a < b then - 1 else if a = b then 0 else 1)"

text \<open>A medium with four days, three of them in the first week of January 2025.\<close>

definition example_entries :: "(string \<times> daily_entry) list" where
  "example_entries =
     [(''2025-01-05'',
       \<lparr>entry_id = 1, date = ''2025-01-05'', water_ml = Some 1, calories = Some 10,
        steps = None, created_at = ''2025-01-05T20:00:00.000Z''\<rparr>),
      (''2025-01-02'',
       \<lparr>entry_id = 2, date = ''2025-01-02'', water_ml = Some 2, calories = Some 20,
        steps = Some 5, created_at = ''2025-01-06T08:00:00.000Z''\<rparr>),
      (''2025-02-01'',
       \<lparr>entry_id = 3, date = ''2025-02-01'', water_ml = Some 9, calories = Some 90,
        steps = Some 9, created_at = ''2025-02-01T08:00:00.000Z''\<rparr>),
      (''2025-01-03'',
       \<lparr>entry_id = 4, date = ''2025-01-03'', water_ml = Some 2, calories = Some 30,
        steps = Some 6, created_at = ''2025-02-02T08:00:00.000Z''\<rparr>)]"

definition example_store :: storage where
  "example_store = empty_storage\<lparr>DAILY_ENTRIES := Some example_entries\<rparr>"

text \<open>Three days whose water is not a whole number: the doubles nearest to 0, 0.1 and 1.4.\<close>

definition fractional_entries :: "(string \<times> daily_entry) list" where
  "fractional_entries =
     [(''2025-01-01'',
       \<lparr>entry_id = 1, date = ''2025-01-01'', water_ml = Some 0, calories = Some 0,
        steps = Some 0, created_at = ''2025-01-01T20:00:00.000Z''\<rparr>),
      (''2025-01-02'',
       \<lparr>entry_id = 2, date = ''2025-01-02'', water_ml = Some (round_double (1 / 10)),
        calories = Some 0, steps = Some 0, created_at = ''2025-01-02T20:00:00.000Z''\<rparr>),
      (''2025-01-03'',
       \<lparr>entry_id = 3, date = ''2025-01-03'', water_ml = Some (round_double (7 / 5)),
        calories = Some 0, steps = Some 0, created_at = ''2025-01-03T20:00:00.000Z''\<rparr>)]"

text \<open>
  The media that the operations of the store can produce, starting from a medium on which
  \<open>initDatabase\<close> finds no entries document.
\<close>

inductive reachable :: "storage \<Rightarrow> bool" where
  init: "DAILY_ENTRIES s = None \<Longrightarrow> reachable (initDatabase s)"
| reinit: "reachable s \<Longrightarrow> reachable (initDatabase s)"
| save: "reachable s \<Longrightarrow>
         reachable (snd (saveDailyEntry now_ms now_iso s d water calorie step))"
| profile: "reachable s \<Longrightarrow> reachable (snd (saveUserProfile now_iso s p))"
| delete: "reachable s \<Longrightarrow> reachable (snd (deleteMedicine s i))"
| dose: "reachable s \<Longrightarrow> reachable (snd (recordDoseTaken now_ms now_iso s i h))"

text \<open>Every stored entry carries, as its \<open>date\<close>, the key it is stored under.\<close>

definition keyed_by_date :: "storage \<Rightarrow> bool" where
  "keyed_by_date s = list_all (\<lambda>(k, e). date e = k) (parse_or_empty (DAILY_ENTRIES s))"

text \<open>A profile field that is not provided.\<close>

definition absent :: "jsval \<Rightarrow> bool" where
  "absent v = (v = JUndefined \<or> v = JNull)"

text \<open>The numeric profile fields with their ranges, as the data model lists them.\<close>

definition profile_ranges :: "(string \<times> real \<times> real) list" where
  "profile_ranges =
     [(''weight_kg'', 20, 500), (''height_cm'', 50, 300), (''daily_water_goal_ml'', 500, 5000),
      (''daily_calorie_goal'', 1200, 4000), (''daily_step_goal'', 1000, 50000)]"

text \<open>
  \<open>progressPercentage\<close> in the words of the specification:
  \<open>min(current/goal * 100, 100)\<close>, and \<open>0\<close> if \<open>goal == 0\<close>.
\<close>

definition progressPercentage_spec :: "real \<Rightarrow> real \<Rightarrow> real" where
  "progressPercentage_spec current goal =
     (if goal = 0 then 0 else min (current / goal * 100) 100)"

text \<open>\<open>current/goal * 100\<close> as two operations on doubles compute it.\<close>

definition double_percentage :: "real \<Rightarrow> real \<Rightarrow> real" where
  "double_percentage current goal = round_double (round_double (current / goal) * 100)"

text \<open>
  \<open>classifyTrend\<close> in the words of the specification. The percent-change of a metric is
  \<open>(current - previous) / previous * 100\<close> and the average of three of them is their sum
  divided by 3, every operation returning the nearest double. A window is given by its
  three metrics, water first, then calories and steps.
\<close>

definition percent_change :: "real \<Rightarrow> real \<Rightarrow> real" where
  "percent_change current previous =
     round_double (round_double (round_double (current - previous) / previous) * 100)"

definition average_change :: "real \<times> real \<times> real \<Rightarrow> real \<times> real \<times> real \<Rightarrow> real" where
  "average_change currentWindow previousWindow =
     (case (currentWindow, previousWindow) of
        ((cw, cc, cs), (pw, pc, ps)) \<Rightarrow>
          round_double
            (round_double
               (round_double (percent_change cw pw + percent_change cc pc)
                + percent_change cs ps)
             / 3))"

definition classifyTrend_spec :: "real \<times> real \<times> real \<Rightarrow> real \<times> real \<times> real \<Rightarrow> string" where
  "classifyTrend_spec currentWindow previousWindow =
     (if previousWindow = (0, 0, 0) then ''new''
      else if 10 < average_change currentWindow previousWindow then ''improving''
      else if average_change currentWindow previousWindow < - 10 then ''declining''
      else ''stable'')"

text \<open>
  What a division by a zero previous metric makes of the trend: the metrics whose previous
  value is zero decide, by the sign of their current value.
\<close>

definition zero_previous :: "real \<times> real \<times> real \<Rightarrow> real \<times> real \<times> real \<Rightarrow> real list" where
  "zero_previous currentWindow previousWindow =
     (case (currentWindow, previousWindow) of
        ((cw, cc, cs), (pw, pc, ps)) \<Rightarrow>
          map fst (filter (\<lambda>(c, p). p = 0) [(cw, pw), (cc, pc), (cs, ps)]))"

definition classifyTrend_by_sign :: "real list \<Rightarrow> string" where
  "classifyTrend_by_sign cs =
     (if list_all (\<lambda>c. 0 < c) cs then ''improving''
      else if list_all (\<lambda>c. c < 0) cs then ''declining''
      else ''stable'')"

text \<open>
  A metric of moderate size: zero, or of magnitude between \<open>2 ^ - 500\<close> and \<open>2 ^ 500\<close>.
  The window whose three metrics are finite numbers.
\<close>

definition moderate :: "real \<Rightarrow> bool" where
  "moderate x = (x = 0 \<or> (1 / 2 ^ 500 \<le> \<bar>x\<bar> \<and> \<bar>x\<bar> \<le> 2 ^ 500))"

definition finite_window :: "real \<times> real \<times> real \<Rightarrow> nat \<Rightarrow> window" where
  "finite_window metrics days =
     (case metrics of
        (w, c, s) \<Rightarrow>
          \<lparr>water_avg = Finite w, calories_avg = Finite c, steps_avg = Finite s,
           daysTracked = days\<rparr>)"

section \<open>Properties of the record store\<close>

subsection \<open>Dictionaries\<close>

lemma obj_get_obj_set_same: "obj_get (obj_set ps k v) k = Some v"
  by (induction ps) auto

lemma obj_get_obj_set_other: "k' \<noteq> k \<Longrightarrow> obj_get (obj_set ps k v) k' = obj_get ps k'"
  by (induction ps) auto

lemma set_obj_set: "set (obj_set ps k v) \<subseteq> insert (k, v) (set ps)"
  by (induction ps) (auto split: if_splits)

subsection \<open>Validation of a daily entry\<close>

lemma not_number_within_iff:
  "not_number_within v lo hi \<longleftrightarrow> \<not> number_in v lo hi \<and> v \<noteq> JNum NaN"
proof (cases v)
  case (JNum n)
  then show ?thesis by (cases n) (auto simp: not_number_within_def num_gt_def)
qed (simp_all add: not_number_within_def)

lemma validateDailyEntry_empty_iff:
  "validateDailyEntry w c st = [] \<longleftrightarrow>
     \<not> not_number_within w 0 10000 \<and> \<not> not_number_within c 0 10000 \<and>
     \<not> not_number_within st 0 100000"
  by (simp add: validateDailyEntry_def)

subsection \<open>Writing and reading one day\<close>

text \<open>
  \<open>saveDailyEntry\<close> returns normally exactly when the three metrics pass validation and
  the date is a non-empty string.
\<close>

lemma saveDailyEntry_succeeds_iff:
  "fst (saveDailyEntry now_ms now_iso s d water calorie step)
     = Inr \<lparr>changes = 1, lastInsertRowid = now_ms\<rparr> \<longleftrightarrow>
   validateDailyEntry water calorie step = [] \<and> (\<exists>key. d = JStr key \<and> key \<noteq> [])"
proof (cases "validateDailyEntry water calorie step = []")
  case True
  then obtain w c st where "water = JNum w" "calorie = JNum c" "step = JNum st"
    by (auto simp: validateDailyEntry_def not_number_within_def split: if_splits jsval.splits)
  with True show ?thesis
    by (cases d) (simp_all add: saveDailyEntry_def Let_def)
next
  case False
  then show ?thesis by (simp add: saveDailyEntry_def Let_def)
qed

text \<open>
  Two strings that are not dates behave differently. For the empty string \<open>!date\<close> holds,
  so \<open>saveDailyEntry\<close> throws \<open>Invalid date format\<close>. For the string \<open>__proto__\<close> the
  assignment \<open>entries[date] = ...\<close> replaces the prototype of the parsed object and adds
  no property, so nothing is written, and the read returns the inherited member.
\<close>

lemma saveDailyEntry_outside_dates:
  "fst (saveDailyEntry 1 ''t'' (initDatabase empty_storage) (JStr [])
          (JNum (Finite 1)) (JNum (Finite 1)) (JNum (Finite 1))) = Inl InputError \<and>
   getTodayEntry (snd (saveDailyEntry 1 ''t'' (initDatabase empty_storage) (JStr [])
          (JNum (Finite 1)) (JNum (Finite 1)) (JNum (Finite 1)))) [] = NoEntry \<and>
   fst (saveDailyEntry 1 ''t'' (initDatabase empty_storage) (JStr ''__proto__'')
          (JNum (Finite 1)) (JNum (Finite 1)) (JNum (Finite 1)))
     = Inr \<lparr>changes = 1, lastInsertRowid = 1\<rparr> \<and>
   getTodayEntry (snd (saveDailyEntry 1 ''t'' (initDatabase empty_storage) (JStr ''__proto__'')
          (JNum (Finite 1)) (JNum (Finite 1)) (JNum (Finite 1)))) ''__proto__''
     = Inherited ''__proto__''"
  by (simp add: saveDailyEntry_def validateDailyEntry_def not_number_within_def num_gt_def
      getTodayEntry_def parse_or_empty_def initDatabase_def empty_storage_def Let_def
      obj_assign_def Object_prototype_names_def)

text \<open>
  For every other key the write succeeds and the read returns the record just written.
\<close>

lemma saveDailyEntry_roundtrip_keys:
  assumes "d \<noteq> []" and "d \<noteq> ''__proto__''"
    and "0 \<le> w" "w \<le> 10000" and "0 \<le> c" "c \<le> 10000" and "0 \<le> st" "st \<le> 100000"
  shows "fst (saveDailyEntry now_ms now_iso s (JStr d)
                (JNum (Finite w)) (JNum (Finite c)) (JNum (Finite st)))
           = Inr \<lparr>changes = 1, lastInsertRowid = now_ms\<rparr> \<and>
         getTodayEntry (snd (saveDailyEntry now_ms now_iso s (JStr d)
                (JNum (Finite w)) (JNum (Finite c)) (JNum (Finite st)))) d
           = Entry \<lparr>entry_id = now_ms, date = d, water_ml = Some w, calories = Some c,
                    steps = Some st, created_at = now_iso\<rparr>"
  using assms
  by (simp add: saveDailyEntry_def validateDailyEntry_def not_number_within_def num_gt_def
      getTodayEntry_def parse_or_empty_def obj_get_obj_set_same obj_assign_def Let_def)

lemma date_string_length: "date_string d \<Longrightarrow> length d = 10"
  by (simp add: date_string_def)

text \<open>
  C1: for every date string and every triple of numbers within bounds (water and calories
  in 0..10000, steps in 0..100000), on every medium, \<open>saveDailyEntry\<close> for that date
  succeeds and \<open>getTodayEntry\<close> for the same date then returns the record just written,
  whose \<open>water_ml\<close>, \<open>calories\<close> and \<open>steps\<close> are exactly the three values written.
\<close>

theorem saveDailyEntry_getTodayEntry_roundtrip:
  assumes "date_string d"
    and "0 \<le> w" "w \<le> 10000" and "0 \<le> c" "c \<le> 10000" and "0 \<le> st" "st \<le> 100000"
  shows "fst (saveDailyEntry now_ms now_iso s (JStr d)
                (JNum (Finite w)) (JNum (Finite c)) (JNum (Finite st)))
           = Inr \<lparr>changes = 1, lastInsertRowid = now_ms\<rparr> \<and>
         getTodayEntry (snd (saveDailyEntry now_ms now_iso s (JStr d)
                (JNum (Finite w)) (JNum (Finite c)) (JNum (Finite st)))) d
           = Entry \<lparr>entry_id = now_ms, date = d, water_ml = Some w, calories = Some c,
                    steps = Some st, created_at = now_iso\<rparr>"
proof -
  from assms(1) have "length d = 10" by (rule date_string_length)
  then have "d \<noteq> []" and "d \<noteq> ''__proto__''" by auto
  then show ?thesis using assms(2-) by (rule saveDailyEntry_roundtrip_keys)
qed

theorem saveDailyEntry_getTodayEntry_roundtrip_witness:
  "date_string ''2025-01-01'' \<and>
   fst (saveDailyEntry 7 ''2025-01-01T08:00:00.000Z'' empty_storage
       (JStr ''2025-01-01'') (JNum (Finite 1000)) (JNum (Finite 500)) (JNum (Finite 2000)))
     = Inr \<lparr>changes = 1, lastInsertRowid = 7\<rparr> \<and>
   getTodayEntry (snd (saveDailyEntry 7 ''2025-01-01T08:00:00.000Z'' empty_storage
       (JStr ''2025-01-01'') (JNum (Finite 1000)) (JNum (Finite 500)) (JNum (Finite 2000))))
     ''2025-01-01''
   = Entry \<lparr>entry_id = 7, date = ''2025-01-01'', water_ml = Some 1000, calories = Some 500,
            steps = Some 2000, created_at = ''2025-01-01T08:00:00.000Z''\<rparr>"
  using saveDailyEntry_getTodayEntry_roundtrip
    [where d = "''2025-01-01''" and w = 1000 and c = 500 and st = 2000 and now_ms = 7
       and now_iso = "''2025-01-01T08:00:00.000Z''" and s = empty_storage]
  by (simp add: date_string_def is_digit_def)

text \<open>
  C2, as stated, fails for \<open>NaN\<close>: it is not a number in 0..10000, yet
  \<open>typeof NaN\<close> is \<open>"number"\<close> and both \<open>NaN < 0\<close> and \<open>NaN > 10000\<close> are false, so
  the entry is written (with \<open>water_ml\<close> read back as \<open>null\<close>).
\<close>

theorem saveDailyEntry_NaN_counterexample:
  "\<not> number_in (JNum NaN) 0 10000 \<and>
   saveDailyEntry 1 ''t'' (initDatabase empty_storage) (JStr ''2025-01-01'')
          (JNum NaN) (JNum (Finite 0)) (JNum (Finite 0)) =
     (Inr \<lparr>changes = 1, lastInsertRowid = 1\<rparr>,
      (initDatabase empty_storage)\<lparr>DAILY_ENTRIES := Some [(''2025-01-01'',
         \<lparr>entry_id = 1, date = ''2025-01-01'', water_ml = None, calories = Some 0,
          steps = Some 0, created_at = ''t''\<rparr>)]\<rparr>)"
  by (simp add: saveDailyEntry_def validateDailyEntry_def not_number_within_def num_gt_def
      parse_or_empty_def initDatabase_def empty_storage_def obj_assign_def Let_def)

text \<open>
  C2, amended: for every date and every input where \<open>water_ml\<close> is not a number in
  0..10000, or \<open>calories\<close> is not a number in 0..10000, or \<open>steps\<close> is not a number in
  0..100000, the offending value not being \<open>NaN\<close>, \<open>saveDailyEntry\<close> fails with a
  validation error that carries at least one message, and the medium is left exactly as it
  was: no entry is written and none is overwritten.
\<close>

theorem saveDailyEntry_rejects_out_of_bounds:
  assumes "(\<not> number_in water 0 10000 \<and> water \<noteq> JNum NaN) \<or>
           (\<not> number_in calorie 0 10000 \<and> calorie \<noteq> JNum NaN) \<or>
           (\<not> number_in step 0 100000 \<and> step \<noteq> JNum NaN)"
  shows "\<exists>msgs. msgs \<noteq> [] \<and>
           saveDailyEntry now_ms now_iso s d water calorie step = (Inl (ValidationError msgs), s)"
proof -
  have "validateDailyEntry water calorie step \<noteq> []"
    using assms by (simp add: validateDailyEntry_empty_iff not_number_within_iff)
  then show ?thesis
    by (simp add: saveDailyEntry_def Let_def)
qed

theorem saveDailyEntry_rejects_out_of_bounds_witness:
  "\<exists>msgs. msgs \<noteq> [] \<and>
     saveDailyEntry 7 ''t'' empty_storage (JStr ''2025-01-01'')
       (JNum (Finite (- 1))) (JNum (Finite 500)) (JStr ''many'')
     = (Inl (ValidationError msgs), empty_storage)"
  using saveDailyEntry_rejects_out_of_bounds
    [where water = "JNum (Finite (- 1))" and calorie = "JNum (Finite 500)"
       and step = "JStr ''many''" and now_ms = 7 and now_iso = "''t''" and s = empty_storage
       and d = "JStr ''2025-01-01''"]
  by simp

subsection \<open>The entries map is keyed by date\<close>

lemma keyed_by_date_saveDailyEntry:
  assumes "keyed_by_date s"
  shows "keyed_by_date (snd (saveDailyEntry now_ms now_iso s d water calorie step))"
proof -
  have "list_all (\<lambda>(k, e). date e = k) (obj_set ps key e)"
    if "list_all (\<lambda>(k, e). date e = k) ps" and "date e = key" for ps key and e :: daily_entry
    using that set_obj_set [of ps key e] by (auto simp: list_all_iff)
  with assms show ?thesis
    by (auto simp: saveDailyEntry_def keyed_by_date_def Let_def parse_or_empty_def
        obj_assign_def split: jsval.splits)
qed

lemma DAILY_ENTRIES_untouched:
  "DAILY_ENTRIES (snd (saveUserProfile now_iso s p)) = DAILY_ENTRIES s"
  "DAILY_ENTRIES (snd (deleteMedicine s i)) = DAILY_ENTRIES s"
  "DAILY_ENTRIES (snd (recordDoseTaken now_ms now_iso s i h)) = DAILY_ENTRIES s"
  by (simp_all add: saveUserProfile_def deleteMedicine_def recordDoseTaken_def Let_def
      split: option.splits)

text \<open>
  C10: in every medium reachable from the empty entries map that \<open>initDatabase\<close> writes,
  by \<open>saveDailyEntry\<close> and the operations that leave the entries alone, every value of
  the daily-entries map has its \<open>date\<close> field equal to the key it is stored under.
\<close>

theorem reachable_keyed_by_date: "reachable s \<Longrightarrow> keyed_by_date s"
proof (induction rule: reachable.induct)
  case (init s)
  then show ?case
    by (simp add: keyed_by_date_def initDatabase_def parse_or_empty_def Let_def)
next
  case (reinit s)
  then show ?case
    by (auto simp: keyed_by_date_def initDatabase_def parse_or_empty_def Let_def)
next
  case (save s now_ms now_iso d water calorie step)
  then show ?case by (simp add: keyed_by_date_saveDailyEntry)
qed (simp_all add: keyed_by_date_def DAILY_ENTRIES_untouched)

theorem reachable_keyed_by_date_witness:
  "keyed_by_date
     (snd (saveDailyEntry 8 ''2025-01-02T08:00:00.000Z''
        (snd (saveDailyEntry 7 ''2025-01-01T08:00:00.000Z'' (initDatabase empty_storage)
           (JStr ''2025-01-01'') (JNum (Finite 1000)) (JNum (Finite 500)) (JNum (Finite 2000))))
        (JStr ''2025-01-02'') (JNum (Finite 1)) (JNum NaN) (JNum (Finite 3))))"
proof -
  have "DAILY_ENTRIES empty_storage = None"
    by (simp add: empty_storage_def)
  then have "reachable (initDatabase empty_storage)"
    by (rule reachable.init)
  then have "reachable
     (snd (saveDailyEntry 8 ''2025-01-02T08:00:00.000Z''
        (snd (saveDailyEntry 7 ''2025-01-01T08:00:00.000Z'' (initDatabase empty_storage)
           (JStr ''2025-01-01'') (JNum (Finite 1000)) (JNum (Finite 500)) (JNum (Finite 2000))))
        (JStr ''2025-01-02'') (JNum (Finite 1)) (JNum NaN) (JNum (Finite 3))))"
    by (intro reachable.save)
  then show ?thesis
    by (rule reachable_keyed_by_date)
qed

subsection \<open>Range queries\<close>

lemma mset_sort_insert: "mset (sort_insert cmp x xs) = add_mset x (mset xs)"
  by (induction xs) auto

lemma mset_array_sort: "mset (array_sort cmp xs) = mset xs"
  unfolding array_sort_def by (induction xs) (auto simp: mset_sort_insert)

lemma set_sort_insert: "set (sort_insert cmp x xs) = insert x (set xs)"
  by (induction xs) auto

lemma sorted_sort_insert:
  assumes total: "\<And>a b. cmp a b \<le> 0 \<or> cmp b a \<le> 0"
    and trans: "\<And>a b c. cmp a b \<le> 0 \<Longrightarrow> cmp b c \<le> 0 \<Longrightarrow> cmp a c \<le> 0"
    and "sorted_wrt (\<lambda>a b. cmp a b \<le> 0) xs"
  shows "sorted_wrt (\<lambda>a b. cmp a b \<le> (0::int)) (sort_insert cmp x xs)"
  using assms(3)
proof (induction xs)
  case Nil
  then show ?case by simp
next
  case (Cons y ys)
  show ?case
  proof (cases "cmp x y \<le> 0")
    case True
    then have "\<forall>z\<in>set ys. cmp x z \<le> 0" using Cons.prems trans by auto
    with True Cons.prems show ?thesis by simp
  next
    case False
    then have "cmp y x \<le> 0" using total by blast
    with False Cons show ?thesis by (auto simp: set_sort_insert)
  qed
qed

lemma sorted_array_sort:
  assumes total: "\<And>a b. cmp a b \<le> 0 \<or> cmp b a \<le> 0"
    and trans: "\<And>a b c. cmp a b \<le> 0 \<Longrightarrow> cmp b c \<le> 0 \<Longrightarrow> cmp a c \<le> 0"
  shows "sorted_wrt (\<lambda>a b. cmp a b \<le> (0::int)) (array_sort cmp xs)"
  unfolding array_sort_def
  by (induction xs) (auto intro: sorted_sort_insert [OF total trans])

lemma mset_getEntriesForDateRange:
  "DAILY_ENTRIES s = Some entries
   \<Longrightarrow> mset (getEntriesForDateRange lc s a b) = mset (found_in_range entries a b)"
  by (simp add: getEntriesForDateRange_def Let_def mset_array_sort parse_or_empty_def
      Object_values_def found_in_range_def conj_commute)

text \<open>
  Among elements on which the comparison function agrees with the order of a key, the sort
  puts the keys in ascending order.
\<close>

lemma sorted_sort_insert_key:
  fixes key :: "'a \<Rightarrow> 'b::linorder"
  assumes agree: "\<And>a b. a \<in> A \<Longrightarrow> b \<in> A \<Longrightarrow> (cmp a b \<le> (0::int) \<longleftrightarrow> key a \<le> key b)"
    and "x \<in> A" and "set xs \<subseteq> A" and "sorted (map key xs)"
  shows "sorted (map key (sort_insert cmp x xs))"
  using assms(3,4)
proof (induction xs)
  case Nil
  then show ?case by simp
next
  case (Cons y ys)
  from Cons.prems have y: "y \<in> A" and ys: "set ys \<subseteq> A" by auto
  from Cons.prems have sorted_ys: "sorted (map key ys)"
    and y_least: "\<forall>z\<in>set ys. key y \<le> key z" by auto
  show ?case
  proof (cases "cmp x y \<le> 0")
    case True
    then have "key x \<le> key y" using agree [OF \<open>x \<in> A\<close> y] by simp
    with y_least have "\<forall>z\<in>set ys. key x \<le> key z" by auto
    with True \<open>key x \<le> key y\<close> Cons.prems show ?thesis by simp
  next
    case False
    then have "\<not> key x \<le> key y" using agree [OF \<open>x \<in> A\<close> y] by simp
    then have "key y \<le> key x" by simp
    moreover have "sorted (map key (sort_insert cmp x ys))"
      using ys sorted_ys by (rule Cons.IH)
    ultimately show ?thesis
      using False y_least by (simp add: set_sort_insert)
  qed
qed

lemma sorted_array_sort_key:
  fixes key :: "'a \<Rightarrow> 'b::linorder"
  assumes agree: "\<And>a b. a \<in> A \<Longrightarrow> b \<in> A \<Longrightarrow> (cmp a b \<le> (0::int) \<longleftrightarrow> key a \<le> key b)"
    and "set xs \<subseteq> A"
  shows "sorted (map key (array_sort cmp xs))"
  using assms(2)
proof (induction xs)
  case Nil
  then show ?case by (simp add: array_sort_def)
next
  case (Cons x xs)
  have set_eq: "set (array_sort cmp xs) = set xs"
    by (metis mset_array_sort set_mset_mset)
  from Cons.prems have xA: "x \<in> A" and sA: "set (array_sort cmp xs) \<subseteq> A"
    by (simp_all add: set_eq)
  from Cons have srt: "sorted (map key (array_sort cmp xs))" by simp
  have "sorted (map key (sort_insert cmp x (array_sort cmp xs)))"
    using agree xA sA srt by (rule sorted_sort_insert_key [where A = A])
  then show ?case by (simp add: array_sort_def)
qed

text \<open>When no entries document has been written the query finds nothing.\<close>

lemma getEntriesForDateRange_no_document:
  "DAILY_ENTRIES s = None \<Longrightarrow> getEntriesForDateRange localeCompare s a b = []"
  by (simp add: getEntriesForDateRange_def parse_or_empty_def Object_values_def array_sort_def)

text \<open>
  C3: for every stored entries map and every pair \<open>a\<close>, \<open>b\<close>, \<open>getEntriesForDateRange\<close>
  returns exactly the stored entries whose date satisfies \<open>a \<le> date \<le> b\<close> under string
  comparison, inclusive at both ends and each as often as it is stored, and the returned
  sequence is sorted ascending by date. The dates of the stored entries are calendar date
  strings, and on such strings \<open>localeCompare\<close> orders as the comparison of strings does.
\<close>

theorem getEntriesForDateRange_filters_and_sorts:
  assumes stored: "DAILY_ENTRIES s = Some entries"
    and dates: "list_all (\<lambda>e. date_string (date e)) (map snd entries)"
    and agree: "\<And>x y. date_string x \<Longrightarrow> date_string y
                  \<Longrightarrow> (localeCompare x y \<le> 0 \<longleftrightarrow> x \<le> y)"
  shows "mset (getEntriesForDateRange localeCompare s a b) =
           filter_mset (\<lambda>e. a \<le> date e \<and> date e \<le> b) (mset (map snd entries)) \<and>
         sorted (map date (getEntriesForDateRange localeCompare s a b))"
proof -
  let ?cmp = "\<lambda>x y. localeCompare (date x) (date y)"
  let ?found = "filter (\<lambda>e. a \<le> date e \<and> date e \<le> b) (map snd entries)"
  have result: "getEntriesForDateRange localeCompare s a b = array_sort ?cmp ?found"
    using stored
    by (simp add: getEntriesForDateRange_def parse_or_empty_def Object_values_def Let_def
        conj_commute)
  have "set ?found \<subseteq> {e. date_string (date e)}"
    using dates by (auto simp: list_all_iff)
  then have "sorted (map date (array_sort ?cmp ?found))"
    by (rule sorted_array_sort_key [rotated]) (simp add: agree)
  then show ?thesis
    by (simp add: result mset_array_sort)
qed

theorem getEntriesForDateRange_filters_and_sorts_witness:
  "mset (getEntriesForDateRange code_unit_compare example_store ''2025-01-01'' ''2025-01-07'') =
     filter_mset (\<lambda>e. ''2025-01-01'' \<le> date e \<and> date e \<le> ''2025-01-07'')
       (mset (map snd example_entries)) \<and>
   sorted (map date
     (getEntriesForDateRange code_unit_compare example_store ''2025-01-01'' ''2025-01-07''))"
  by (rule getEntriesForDateRange_filters_and_sorts)
    (auto simp: example_store_def example_entries_def empty_storage_def date_string_def is_digit_def
       code_unit_compare_def split: if_splits)

text \<open>
  Of \<open>localeCompare\<close> alone, taken as total and transitive, the result is sorted in the
  order of \<open>localeCompare\<close>.
\<close>

lemma getEntriesForDateRange_sorted_localeCompare:
  assumes total: "\<And>x y. localeCompare x y \<le> 0 \<or> localeCompare y x \<le> 0"
    and trans: "\<And>x y z. localeCompare x y \<le> 0 \<Longrightarrow> localeCompare y z \<le> 0
                  \<Longrightarrow> localeCompare x z \<le> 0"
  shows "sorted_wrt (\<lambda>x y. localeCompare (date x) (date y) \<le> 0)
           (getEntriesForDateRange localeCompare s a b)"
proof -
  let ?cmp = "\<lambda>x y. localeCompare (date x) (date y)"
  have "sorted_wrt (\<lambda>x y. ?cmp x y \<le> 0) (array_sort ?cmp xs)" for xs
    by (rule sorted_array_sort) (use total trans in blast)+
  then show ?thesis
    by (simp add: getEntriesForDateRange_def Let_def)
qed

text \<open>On the example the three days of the week come back, earliest first.\<close>

lemma getEntriesForDateRange_example:
  "map date (getEntriesForDateRange code_unit_compare example_store
               ''2025-01-01'' ''2025-01-07'')
   = [''2025-01-02'', ''2025-01-03'', ''2025-01-05'']"
  by (simp add: getEntriesForDateRange_def example_store_def example_entries_def empty_storage_def
      parse_or_empty_def Object_values_def array_sort_def code_unit_compare_def)

subsection \<open>Recording a dose of a removed medicine\<close>

lemma obj_get_obj_delete_same: "obj_get (obj_delete ps k) k = None"
  by (induction ps) auto

text \<open>
  C9: for every medicine id and dose hour, \<open>recordDoseTaken\<close> called after
  \<open>deleteMedicine\<close> of that id is not an error: the dose history gets exactly one new
  entry, which refers to the removed id, and the medicines map is left as the removal left it.
\<close>

theorem recordDoseTaken_after_deleteMedicine:
  "fst (deleteMedicine s i) = Inr () \<and>
   fst (recordDoseTaken now_ms now (snd (deleteMedicine s i)) i h) = Inr () \<and>
   MEDICINES (snd (recordDoseTaken now_ms now (snd (deleteMedicine s i)) i h))
     = MEDICINES (snd (deleteMedicine s i)) \<and>
   parse_or_empty
     (MEDICINE_DOSE_HISTORY (snd (recordDoseTaken now_ms now (snd (deleteMedicine s i)) i h)))
     = parse_or_empty (MEDICINE_DOSE_HISTORY (snd (deleteMedicine s i))) @
         [\<lparr>dose_id = now_ms, medicine_id = i, dose_time = h, taken_at = now\<rparr>]"
  by (simp add: recordDoseTaken_def deleteMedicine_def Let_def parse_or_empty_def
      obj_get_obj_delete_same)

theorem recordDoseTaken_after_deleteMedicine_witness:
  "recordDoseTaken 99 ''2025-01-02T08:00:00.000Z''
     (snd (deleteMedicine
        (empty_storage\<lparr>MEDICINES := Some
           [(5, \<lparr>med_id = 5, med_name = ''Aspirin'', dosage = ''100mg'', frequency = ''daily'',
                 times = [8, 20], instructions = None, total_doses = Some 30,
                 doses_taken = Some 3, med_created_at = ''2025-01-01T08:00:00.000Z'',
                 med_updated_at = None\<rparr>)]\<rparr>) 5)) 5 8
   = (Inr (),
      empty_storage\<lparr>MEDICINES := Some [],
        MEDICINE_DOSE_HISTORY := Some
          [\<lparr>dose_id = 99, medicine_id = 5, dose_time = 8,
            taken_at = ''2025-01-02T08:00:00.000Z''\<rparr>]\<rparr>)"
  using recordDoseTaken_after_deleteMedicine
    [where now_ms = 99 and now = "''2025-01-02T08:00:00.000Z''" and i = 5 and h = 8
       and s = "empty_storage\<lparr>MEDICINES := Some
           [(5, \<lparr>med_id = 5, med_name = ''Aspirin'', dosage = ''100mg'', frequency = ''daily'',
                 times = [8, 20], instructions = None, total_doses = Some 30,
                 doses_taken = Some 3, med_created_at = ''2025-01-01T08:00:00.000Z'',
                 med_updated_at = None\<rparr>)]\<rparr>"]
  by (simp add: recordDoseTaken_def deleteMedicine_def Let_def parse_or_empty_def
      empty_storage_def)

text \<open>While the medicine is stored, the same call counts the dose.\<close>

lemma recordDoseTaken_counts:
  "MEDICINES (snd (recordDoseTaken 99 ''t''
     (empty_storage\<lparr>MEDICINES := Some
        [(5, \<lparr>med_id = 5, med_name = ''Aspirin'', dosage = ''100mg'', frequency = ''daily'',
              times = [8, 20], instructions = None, total_doses = Some 30,
              doses_taken = Some 3, med_created_at = ''c'', med_updated_at = None\<rparr>)]\<rparr>) 5 8))
   = Some [(5, \<lparr>med_id = 5, med_name = ''Aspirin'', dosage = ''100mg'', frequency = ''daily'',
                times = [8, 20], instructions = None, total_doses = Some 30,
                doses_taken = Some 4, med_created_at = ''c'', med_updated_at = None\<rparr>)]"
  by (simp add: recordDoseTaken_def Let_def parse_or_empty_def empty_storage_def or_zero_def)

subsection \<open>Objects, spread and JSON\<close>

lemma obj_get_None_iff: "obj_get ps k = None \<longleftrightarrow> k \<notin> fst ` set ps"
  by (induction ps) (auto split: if_splits)

lemma distinct_obj_set: "distinct (map fst ps) \<Longrightarrow> distinct (map fst (obj_set ps k v))"
proof (induction ps)
  case Nil
  then show ?case by simp
next
  case (Cons p ps)
  have "fst ` set (obj_set ps k v) \<subseteq> insert k (fst ` set ps)"
    using set_obj_set [of ps k v] by auto
  with Cons show ?case by (cases p) auto
qed

lemma distinct_spread: "distinct (map fst base) \<Longrightarrow> distinct (map fst (spread base ps))"
  by (induction ps arbitrary: base) (auto simp: distinct_obj_set)

lemma obj_get_spread:
  "distinct (map fst ps) \<Longrightarrow>
   obj_get (spread base ps) k =
     (case obj_get ps k of Some v \<Rightarrow> Some v | None \<Rightarrow> obj_get base k)"
proof (induction ps arbitrary: base)
  case Nil
  then show ?case by simp
next
  case (Cons p ps)
  obtain k' v' where p: "p = (k', v')" by (cases p)
  from Cons.prems p have d: "distinct (map fst ps)" and n: "k' \<notin> fst ` set ps" by auto
  show ?case
  proof (cases "k' = k")
    case True
    with n have "obj_get ps k = None" by (simp add: obj_get_None_iff)
    with True p Cons.IH [OF d] show ?thesis by (simp add: obj_get_obj_set_same)
  next
    case False
    with p Cons.IH [OF d] show ?thesis
      by (simp add: obj_get_obj_set_other split: option.splits)
  qed
qed

lemma obj_get_map_values:
  "obj_get (map (\<lambda>p. (fst p, f (snd p))) ps) k = map_option f (obj_get ps k)"
  by (induction ps) auto

lemma obj_get_filter_values:
  "distinct (map fst ps) \<Longrightarrow>
   obj_get (filter (\<lambda>p. P (snd p)) ps) k =
     (case obj_get ps k of None \<Rightarrow> None | Some v \<Rightarrow> if P v then Some v else None)"
proof (induction ps)
  case Nil
  then show ?case by simp
next
  case (Cons p ps)
  obtain k' v' where p: "p = (k', v')" by (cases p)
  from Cons.prems p have d: "distinct (map fst ps)" and n: "k' \<notin> fst ` set ps" by auto
  from n have "obj_get ps k' = None" by (simp add: obj_get_None_iff)
  with p Cons.IH [OF d] show ?case by auto
qed

lemma get_prop_json_object:
  "distinct (map fst ps) \<Longrightarrow> get_prop (json_object ps) k = json_roundtrip (get_prop ps k)"
  using obj_get_filter_values [where P = "\<lambda>v. v \<noteq> JUndefined" and ps = ps and k = k]
  by (simp add: get_prop_def json_object_def obj_get_map_values split: option.splits)

subsection \<open>Validating and saving the profile\<close>

lemma bad_profile_number_iff:
  "bad_profile_number profile f lo hi \<longleftrightarrow>
     truthy (get_prop profile f) \<and> \<not> number_in (get_prop profile f) lo hi"
  by (auto simp: bad_profile_number_def not_number_within_iff)

lemma validateUserProfile_empty_iff:
  "validateUserProfile profile = [] \<longleftrightarrow>
     \<not> (truthy (get_prop profile ''name'') \<and> typeof (get_prop profile ''name'') \<noteq> ''string'') \<and>
     (\<forall>(f, lo, hi) \<in> set profile_ranges. \<not> bad_profile_number profile f lo hi)"
  by (simp add: validateUserProfile_def profile_ranges_def)

lemma saveUserProfile_invalid:
  "validateUserProfile profile \<noteq> [] \<Longrightarrow>
   saveUserProfile now_iso s profile = (Inl (ValidationError (validateUserProfile profile)), s)"
  by (simp add: saveUserProfile_def Let_def)

lemma saveUserProfile_valid:
  "validateUserProfile profile = [] \<Longrightarrow>
   saveUserProfile now_iso s profile =
     (Inr \<lparr>changes = 1, lastInsertRowid = 1\<rparr>,
      s\<lparr>USER_PROFILE := Some (json_object
          (obj_set (spread [(''id'', JNum (Finite 1))] profile) ''updated_at''
             (JStr now_iso)))\<rparr>)"
  by (simp add: saveUserProfile_def Let_def)

text \<open>
  C7, as stated, fails for an object that has an \<open>id\<close> of its own: in
  \<open>{ id: 1, ...profile, updated_at }\<close> the properties of \<open>profile\<close> are copied over the
  \<open>id\<close> defined before them, so the profile \<open>{ id: 2, name: "Ada" }\<close> passes validation
  and is persisted with \<open>id\<close> 2.
\<close>

theorem saveUserProfile_id_counterexample:
  "validateUserProfile [(''id'', JNum (Finite 2)), (''name'', JStr ''Ada'')] = [] \<and>
   getUserProfile (snd (saveUserProfile ''2025-01-01T08:00:00.000Z'' (initDatabase empty_storage)
       [(''id'', JNum (Finite 2)), (''name'', JStr ''Ada'')]))
   = Some [(''id'', JNum (Finite 2)), (''name'', JStr ''Ada''),
           (''updated_at'', JStr ''2025-01-01T08:00:00.000Z'')]"
  by (simp add: saveUserProfile_def validateUserProfile_def bad_profile_number_def get_prop_def
      json_object_def getUserProfile_def Let_def)

text \<open>
  C7, amended: for every input object that passes validation, \<open>saveUserProfile\<close>
  persists the given object, as JSON, as the new profile, with a refreshed \<open>updated_at\<close>
  and with \<open>id\<close> equal to 1 when the object has no \<open>id\<close> property of its own (an \<open>id\<close>
  of its own is persisted as given). The stored profile is replaced entirely: what is
  persisted is the same whatever the medium held before, so no field of the previously
  stored profile is merged into it, and no other document changes. The keys of an object
  are distinct.
\<close>

theorem saveUserProfile_replaces:
  assumes valid: "validateUserProfile profile = []"
    and keys: "distinct (map fst profile)"
  shows "\<exists>saved.
     (\<forall>s. saveUserProfile now_iso s profile =
            (Inr \<lparr>changes = 1, lastInsertRowid = 1\<rparr>, s\<lparr>USER_PROFILE := Some saved\<rparr>)) \<and>
     get_prop saved ''updated_at'' = JStr now_iso \<and>
     get_prop saved ''id'' =
       (case obj_get profile ''id'' of None \<Rightarrow> JNum (Finite 1) | Some v \<Rightarrow> json_roundtrip v) \<and>
     (\<forall>k. k \<noteq> ''id'' \<and> k \<noteq> ''updated_at'' \<longrightarrow>
          get_prop saved k = json_roundtrip (get_prop profile k))"
proof -
  let ?p = "obj_set (spread [(''id'', JNum (Finite 1))] profile) ''updated_at'' (JStr now_iso)"
  have d: "distinct (map fst ?p)"
    by (simp add: distinct_obj_set distinct_spread)
  have "\<forall>s. saveUserProfile now_iso s profile =
            (Inr \<lparr>changes = 1, lastInsertRowid = 1\<rparr>, s\<lparr>USER_PROFILE := Some (json_object ?p)\<rparr>)"
    using valid by (simp add: saveUserProfile_valid)
  moreover have "get_prop (json_object ?p) ''updated_at'' = JStr now_iso"
    unfolding get_prop_json_object [OF d] by (simp add: get_prop_def obj_get_obj_set_same)
  moreover have "get_prop (json_object ?p) ''id'' =
       (case obj_get profile ''id'' of None \<Rightarrow> JNum (Finite 1) | Some v \<Rightarrow> json_roundtrip v)"
    unfolding get_prop_json_object [OF d]
    by (simp add: get_prop_def obj_get_obj_set_other obj_get_spread [OF keys]
        split: option.splits)
  moreover have "get_prop (json_object ?p) k = json_roundtrip (get_prop profile k)"
    if "k \<noteq> ''id''" and "k \<noteq> ''updated_at''" for k
  proof -
    from that have "obj_get ?p k = obj_get profile k"
      by (auto simp: obj_get_obj_set_other obj_get_spread [OF keys] split: option.splits)
    then show ?thesis
      unfolding get_prop_json_object [OF d] by (simp add: get_prop_def)
  qed
  ultimately show ?thesis by blast
qed

theorem saveUserProfile_replaces_witness:
  "\<exists>saved.
     (\<forall>s. saveUserProfile ''2025-01-01T08:00:00.000Z'' s
             [(''name'', JStr ''Ada''), (''weight_kg'', JNum (Finite 60)),
              (''updated_at'', JStr ''2024-12-31T08:00:00.000Z'')] =
            (Inr \<lparr>changes = 1, lastInsertRowid = 1\<rparr>, s\<lparr>USER_PROFILE := Some saved\<rparr>)) \<and>
     get_prop saved ''updated_at'' = JStr ''2025-01-01T08:00:00.000Z'' \<and>
     get_prop saved ''id'' = JNum (Finite 1) \<and>
     get_prop saved ''weight_kg'' = JNum (Finite 60)"
proof -
  let ?profile = "[(''name'', JStr ''Ada''), (''weight_kg'', JNum (Finite 60)),
              (''updated_at'', JStr ''2024-12-31T08:00:00.000Z'')]"
  have "validateUserProfile ?profile = []"
    by (simp add: validateUserProfile_def bad_profile_number_def get_prop_def
        not_number_within_def num_gt_def)
  moreover have "distinct (map fst ?profile)"
    by simp
  ultimately show ?thesis
    using saveUserProfile_replaces [of ?profile "''2025-01-01T08:00:00.000Z''"]
    by (auto simp: get_prop_def)
qed

text \<open>
  C8, as stated, fails: a \<open>weight_kg\<close> of 0 is provided, is not \<open>null\<close> and lies outside
  20..500, and a \<open>birthdate\<close> of 42 is provided and is no date string, yet the profile
  that holds both passes validation and is saved. \<open>profile.weight_kg && ...\<close> skips the
  range check of every falsy value, and no check reads \<open>birthdate\<close>.
\<close>

theorem saveUserProfile_falsy_counterexample:
  "\<not> absent (JNum (Finite 0)) \<and> \<not> number_in (JNum (Finite 0)) 20 500 \<and>
   saveUserProfile ''t'' empty_storage
     [(''weight_kg'', JNum (Finite 0)), (''birthdate'', JNum (Finite 42))]
   = (Inr \<lparr>changes = 1, lastInsertRowid = 1\<rparr>,
      empty_storage\<lparr>USER_PROFILE := Some
        [(''id'', JNum (Finite 1)), (''weight_kg'', JNum (Finite 0)),
         (''birthdate'', JNum (Finite 42)), (''updated_at'', JStr ''t'')]\<rparr>)"
  by (simp add: saveUserProfile_def validateUserProfile_def bad_profile_number_def get_prop_def
      json_object_def absent_def Let_def)

text \<open>
  C8, amended: the validation of a profile type-checks \<open>name\<close> and range-checks
  \<open>weight_kg\<close> (20..500), \<open>height_cm\<close> (50..300), \<open>daily_water_goal_ml\<close> (500..5000),
  \<open>daily_calorie_goal\<close> (1200..4000) and \<open>daily_step_goal\<close> (1000..50000), each when its
  value is truthy: \<open>saveUserProfile\<close> fails with a validation error, leaving the medium as
  it was, whenever \<open>name\<close> is truthy and not a string or one of the five fields is truthy
  and not a number in its range. Absent fields (\<open>undefined\<close> or \<open>null\<close>) are not required:
  a profile in which \<open>name\<close> is absent or a string and each of the five fields is absent
  or a number in its range is saved.
\<close>

theorem saveUserProfile_validation:
  "((truthy (get_prop profile ''name'') \<and> typeof (get_prop profile ''name'') \<noteq> ''string'') \<or>
    (\<exists>(f, lo, hi) \<in> set profile_ranges.
        truthy (get_prop profile f) \<and> \<not> number_in (get_prop profile f) lo hi)
     \<longrightarrow> (\<exists>msgs. msgs \<noteq> [] \<and>
            saveUserProfile now_iso s profile = (Inl (ValidationError msgs), s))) \<and>
   ((absent (get_prop profile ''name'') \<or> typeof (get_prop profile ''name'') = ''string'') \<and>
    (\<forall>(f, lo, hi) \<in> set profile_ranges.
        absent (get_prop profile f) \<or> number_in (get_prop profile f) lo hi)
     \<longrightarrow> fst (saveUserProfile now_iso s profile) = Inr \<lparr>changes = 1, lastInsertRowid = 1\<rparr>)"
proof (intro conjI impI)
  assume "(truthy (get_prop profile ''name'') \<and> typeof (get_prop profile ''name'') \<noteq> ''string'') \<or>
    (\<exists>(f, lo, hi) \<in> set profile_ranges.
        truthy (get_prop profile f) \<and> \<not> number_in (get_prop profile f) lo hi)"
  then have "validateUserProfile profile \<noteq> []"
    unfolding validateUserProfile_empty_iff bad_profile_number_iff by blast
  then show "\<exists>msgs. msgs \<noteq> [] \<and>
            saveUserProfile now_iso s profile = (Inl (ValidationError msgs), s)"
    by (simp add: saveUserProfile_invalid)
next
  assume a: "(absent (get_prop profile ''name'') \<or> typeof (get_prop profile ''name'') = ''string'') \<and>
    (\<forall>(f, lo, hi) \<in> set profile_ranges.
        absent (get_prop profile f) \<or> number_in (get_prop profile f) lo hi)"
  have "\<not> truthy v" if "absent v" for v
    using that by (auto simp: absent_def)
  with a have "validateUserProfile profile = []"
    unfolding validateUserProfile_empty_iff bad_profile_number_iff by fastforce
  then show "fst (saveUserProfile now_iso s profile) = Inr \<lparr>changes = 1, lastInsertRowid = 1\<rparr>"
    by (simp add: saveUserProfile_valid)
qed

theorem saveUserProfile_validation_witness:
  "(\<exists>msgs. msgs \<noteq> [] \<and>
      saveUserProfile ''t'' empty_storage [(''name'', JStr ''Ada''), (''weight_kg'', JNum (Finite 19))]
        = (Inl (ValidationError msgs), empty_storage)) \<and>
   fst (saveUserProfile ''t'' empty_storage
          [(''name'', JStr ''Ada''), (''weight_kg'', JNull), (''height_cm'', JNum (Finite 170))])
     = Inr \<lparr>changes = 1, lastInsertRowid = 1\<rparr>"
  using saveUserProfile_validation
      [of "[(''name'', JStr ''Ada''), (''weight_kg'', JNum (Finite 19))]" "''t''" empty_storage]
    saveUserProfile_validation
      [of "[(''name'', JStr ''Ada''), (''weight_kg'', JNull), (''height_cm'', JNum (Finite 170))]"
          "''t''" empty_storage]
  by (simp add: profile_ranges_def get_prop_def absent_def)

section \<open>Properties of the analytics\<close>

subsection \<open>Rounding to a double\<close>

lemma exponent_up_le: "1 \<le> x \<Longrightarrow> 2 ^ exponent_up n x \<le> x"
proof (induction n arbitrary: x)
  case 0
  then show ?case by simp
next
  case (Suc n)
  show ?case
  proof (cases "x < 2")
    case True
    with Suc.prems show ?thesis by simp
  next
    case False
    then have "1 \<le> x / 2" by simp
    from Suc.IH [OF this] False show ?thesis by simp
  qed
qed

lemma exponent_up_bound: "exponent_up n x \<le> n"
  by (induction n arbitrary: x) auto

lemma exponent_up_gt: "exponent_up n x < n \<Longrightarrow> x < 2 * 2 ^ exponent_up n x"
proof (induction n arbitrary: x)
  case 0
  then show ?case by simp
next
  case (Suc n)
  show ?case
  proof (cases "x < 2")
    case True
    then show ?thesis by simp
  next
    case False
    with Suc.prems have "exponent_up n (x / 2) < n" by simp
    from Suc.IH [OF this] False show ?thesis by simp
  qed
qed

lemma exponent_up_ge: "2 ^ k \<le> x \<Longrightarrow> k \<le> n \<Longrightarrow> k \<le> exponent_up n x"
proof (induction n arbitrary: x k)
  case 0
  then show ?case by simp
next
  case (Suc n)
  show ?case
  proof (cases k)
    case 0
    then show ?thesis by simp
  next
    case (Suc k')
    with Suc.prems have "2 * 2 ^ k' \<le> x" by simp
    moreover have "(1::real) \<le> 2 ^ k'" by simp
    ultimately have "\<not> x < 2" and "2 ^ k' \<le> x / 2" by linarith+
    with Suc.IH [of k' "x / 2"] Suc.prems \<open>k = Suc k'\<close> show ?thesis by simp
  qed
qed

lemma exponent_down_reach:
  "0 < x \<Longrightarrow> 1 \<le> x * 2 ^ n \<Longrightarrow> 1 \<le> x * 2 ^ exponent_down n x"
proof (induction n arbitrary: x)
  case 0
  then show ?case by simp
next
  case (Suc n)
  show ?case
  proof (cases "1 \<le> x")
    case True
    then show ?thesis by simp
  next
    case False
    from Suc.prems have "0 < 2 * x" "1 \<le> (2 * x) * 2 ^ n" by (simp_all add: mult_ac)
    from Suc.IH [OF this] False show ?thesis by (simp add: mult_ac)
  qed
qed

lemma exponent_down_lt: "0 < x \<Longrightarrow> x < 2 \<Longrightarrow> x * 2 ^ exponent_down n x < 2"
proof (induction n arbitrary: x)
  case 0
  then show ?case by simp
next
  case (Suc n)
  show ?case
  proof (cases "1 \<le> x")
    case True
    with Suc.prems show ?thesis by simp
  next
    case False
    with Suc.prems have "0 < 2 * x" "2 * x < 2" by simp_all
    from Suc.IH [OF this] False show ?thesis by (simp add: mult_ac)
  qed
qed

lemma ulp_pos: "0 < ulp x"
  by (simp add: ulp_def)

lemma round_half_even_of_int: "round_half_even (of_int j) = j"
  by (simp add: round_half_even_def)

lemma round_half_even_ge: "of_int k \<le> q \<Longrightarrow> k \<le> round_half_even q"
proof -
  assume "of_int k \<le> q"
  then have "k \<le> \<lfloor>q\<rfloor>" by (simp add: le_floor_iff)
  then show ?thesis by (auto simp: round_half_even_def Let_def)
qed

lemma round_half_even_le: "q \<le> of_int k \<Longrightarrow> round_half_even q \<le> k"
proof -
  assume a: "q \<le> of_int k"
  show ?thesis
  proof (cases "q = of_int k")
    case True
    then show ?thesis by (simp add: round_half_even_of_int)
  next
    case False
    with a have "q < of_int k" by simp
    then have "\<lfloor>q\<rfloor> < k" by (simp add: floor_less_iff)
    then show ?thesis by (auto simp: round_half_even_def Let_def)
  qed
qed

lemma round_half_even_err: "\<bar>of_int (round_half_even q) - q\<bar> \<le> 1 / 2"
proof -
  have "of_int \<lfloor>q\<rfloor> \<le> q" "q < of_int \<lfloor>q\<rfloor> + 1" by linarith+
  then show ?thesis
    by (auto simp: round_half_even_def Let_def abs_le_iff)
qed

text \<open>Rounding never crosses a multiple of the unit in the last place.\<close>

lemma round_double_ge_grid:
  assumes "x \<noteq> 0" and "of_int m * ulp \<bar>x\<bar> \<le> x"
  shows "of_int m * ulp \<bar>x\<bar> \<le> round_double x"
proof -
  have "of_int m \<le> x / ulp \<bar>x\<bar>"
    using assms(2) ulp_pos [of "\<bar>x\<bar>"] by (simp add: pos_le_divide_eq)
  then have "m \<le> round_half_even (x / ulp \<bar>x\<bar>)" by (rule round_half_even_ge)
  then have "of_int m * ulp \<bar>x\<bar> \<le> of_int (round_half_even (x / ulp \<bar>x\<bar>)) * ulp \<bar>x\<bar>"
    using ulp_pos [of "\<bar>x\<bar>"] by (simp add: mult_right_mono)
  with assms(1) show ?thesis by (simp add: round_double_def)
qed

lemma round_double_le_grid:
  assumes "x \<noteq> 0" and "x \<le> of_int m * ulp \<bar>x\<bar>"
  shows "round_double x \<le> of_int m * ulp \<bar>x\<bar>"
proof -
  have "x / ulp \<bar>x\<bar> \<le> of_int m"
    using assms(2) ulp_pos [of "\<bar>x\<bar>"] by (simp add: pos_divide_le_eq)
  then have "round_half_even (x / ulp \<bar>x\<bar>) \<le> m" by (rule round_half_even_le)
  then have "of_int (round_half_even (x / ulp \<bar>x\<bar>)) * ulp \<bar>x\<bar> \<le> of_int m * ulp \<bar>x\<bar>"
    using ulp_pos [of "\<bar>x\<bar>"] by (simp add: mult_right_mono)
  with assms(1) show ?thesis by (simp add: round_double_def)
qed

lemma round_double_err: "\<bar>round_double x - x\<bar> \<le> ulp \<bar>x\<bar> / 2"
proof (cases "x = 0")
  case True
  then show ?thesis using ulp_pos [of 0] by (simp add: round_double_def)
next
  case False
  let ?u = "ulp \<bar>x\<bar>"
  have u: "0 < ?u" by (rule ulp_pos)
  have "\<bar>of_int (round_half_even (x / ?u)) - x / ?u\<bar> \<le> 1 / 2"
    by (rule round_half_even_err)
  then have "\<bar>of_int (round_half_even (x / ?u)) - x / ?u\<bar> * ?u \<le> 1 / 2 * ?u"
    using u by (simp add: mult_right_mono)
  moreover have "\<bar>of_int (round_half_even (x / ?u)) - x / ?u\<bar> * ?u
      = \<bar>of_int (round_half_even (x / ?u)) * ?u - x\<bar>"
  proof -
    have "\<bar>of_int (round_half_even (x / ?u)) - x / ?u\<bar> * ?u
      = \<bar>(of_int (round_half_even (x / ?u)) - x / ?u) * ?u\<bar>"
      using u by (simp add: abs_mult)
    also have "(of_int (round_half_even (x / ?u)) - x / ?u) * ?u
      = of_int (round_half_even (x / ?u)) * ?u - x"
      using u by (simp add: left_diff_distrib)
    finally show ?thesis .
  qed
  ultimately show ?thesis using False by (simp add: round_double_def)
qed

text \<open>A number that is a multiple of its unit in the last place is a double.\<close>

lemma round_double_grid:
  assumes "x = of_int m * ulp \<bar>x\<bar>"
  shows "round_double x = x"
proof (cases "x = 0")
  case True
  then show ?thesis by (simp add: round_double_def)
next
  case False
  have "x / ulp \<bar>x\<bar> = of_int m"
    using assms ulp_pos [of "\<bar>x\<bar>"] by (simp add: field_simps)
  with False assms show ?thesis
    by (simp add: round_double_def round_half_even_of_int)
qed


lemma ulp_ge_1: "1 \<le> x \<Longrightarrow> ulp x = 2 ^ exponent_up 1024 x / 2 ^ 52"
  by (simp add: ulp_def)

lemma ulp_lt_1: "x < 1 \<Longrightarrow> ulp x = 1 / (2 ^ exponent_down 1022 x * 2 ^ 52)"
  by (simp add: ulp_def)

lemma pow2_grid:
  assumes "e \<le> k + 52"
  shows "(2::real) ^ k = of_int (2 ^ (k + 52 - e)) * (2 ^ e / 2 ^ 52)"
proof -
  have "(2::real) ^ (k + 52 - e) * 2 ^ e = 2 ^ (k + 52)"
    using assms by (simp add: power_add [symmetric])
  then have "(2::real) ^ (k + 52 - e) * 2 ^ e / 2 ^ 52 = 2 ^ k"
    by (simp add: power_add)
  then show ?thesis by simp
qed

lemma grid_ge: "x \<noteq> 0 \<Longrightarrow> of_int m * ulp \<bar>x\<bar> = d \<Longrightarrow> d \<le> x \<Longrightarrow> d \<le> round_double x"
  using round_double_ge_grid [of x m] by simp

lemma grid_le: "x \<noteq> 0 \<Longrightarrow> of_int m * ulp \<bar>x\<bar> = d \<Longrightarrow> x \<le> d \<Longrightarrow> round_double x \<le> d"
  using round_double_le_grid [of x m] by simp

lemma round_double_ge_pow2:
  assumes "2 ^ k \<le> x"
  shows "2 ^ k \<le> round_double x"
proof -
  let ?e = "exponent_up 1024 x"
  have x1: "1 \<le> x" using assms one_le_power [of "2::real" k] by linarith
  then have x0: "x \<noteq> 0" and ax: "\<bar>x\<bar> = x" by simp_all
  have u: "ulp \<bar>x\<bar> = 2 ^ ?e / 2 ^ 52" using x1 ax by (simp add: ulp_ge_1)
  have ex: "2 ^ ?e \<le> x" using x1 by (rule exponent_up_le)
  show ?thesis
  proof (cases "k \<le> ?e")
    case True
    have "of_int (2 ^ (?e + 52 - ?e)) * ulp \<bar>x\<bar> = 2 ^ ?e"
      unfolding u by (rule pow2_grid [symmetric]) simp
    from grid_ge [OF x0 this ex] have "2 ^ ?e \<le> round_double x" .
    moreover have "(2::real) ^ k \<le> 2 ^ ?e" using True by simp
    ultimately show ?thesis by linarith
  next
    case False
    then have "?e \<le> k + 52" by simp
    then have "of_int (2 ^ (k + 52 - ?e)) * ulp \<bar>x\<bar> = 2 ^ k"
      unfolding u by (rule pow2_grid [symmetric])
    from grid_ge [OF x0 this assms] show ?thesis .
  qed
qed

lemma round_double_nonneg: "0 \<le> x \<Longrightarrow> 0 \<le> round_double x"
proof (cases "x = 0")
  case True
  then show ?thesis by (simp add: round_double_def)
next
  case False
  assume "0 \<le> x"
  with False show ?thesis by (intro grid_ge [where m = 0]) simp_all
qed

lemma round_double_nonpos: "x \<le> 0 \<Longrightarrow> round_double x \<le> 0"
proof (cases "x = 0")
  case True
  then show ?thesis by (simp add: round_double_def)
next
  case False
  assume "x \<le> 0"
  with False show ?thesis by (intro grid_le [where m = 0]) simp_all
qed

text \<open>Below one, one itself is a multiple of the unit.\<close>

lemma one_grid_lt_1: "x < 1 \<Longrightarrow> of_int (2 ^ exponent_down 1022 x * 2 ^ 52) * ulp x = 1"
  by (simp add: ulp_lt_1)

lemma round_double_le_pow2:
  assumes "0 < x" and "x \<le> 2 ^ k"
  shows "round_double x \<le> 2 ^ k"
proof (cases "1 \<le> x")
  case True
  let ?e = "exponent_up 1024 x"
  from assms have x0: "x \<noteq> 0" and ax: "\<bar>x\<bar> = x" by simp_all
  have u: "ulp \<bar>x\<bar> = 2 ^ ?e / 2 ^ 52" using True ax by (simp add: ulp_ge_1)
  have "2 ^ ?e \<le> x" using True by (rule exponent_up_le)
  with assms(2) have "(2::real) ^ ?e \<le> 2 ^ k" by linarith
  then have "?e \<le> k" by simp
  then have "?e \<le> k + 52" by simp
  then have "of_int (2 ^ (k + 52 - ?e)) * ulp \<bar>x\<bar> = 2 ^ k"
    unfolding u by (rule pow2_grid [symmetric])
  from grid_le [OF x0 this assms(2)] show ?thesis .
next
  case False
  from assms have x0: "x \<noteq> 0" and ax: "\<bar>x\<bar> = x" by simp_all
  from False have lt: "x < 1" by simp
  have g: "of_int (2 ^ exponent_down 1022 x * 2 ^ 52) * ulp \<bar>x\<bar> = 1"
    unfolding ax using lt by (rule one_grid_lt_1)
  from lt have "x \<le> 1" by simp
  from grid_le [OF x0 g this] have "round_double x \<le> 1" .
  moreover have "(1::real) \<le> 2 ^ k" by simp
  ultimately show ?thesis by linarith
qed

lemma round_double_ge_neg_pow2:
  assumes "x < 0" and "- (2 ^ k) \<le> x"
  shows "- (2 ^ k) \<le> round_double x"
proof (cases "1 \<le> - x")
  case True
  let ?e = "exponent_up 1024 (- x)"
  from assms have x0: "x \<noteq> 0" and ax: "\<bar>x\<bar> = - x" by simp_all
  have u: "ulp \<bar>x\<bar> = 2 ^ ?e / 2 ^ 52" unfolding ax using True by (rule ulp_ge_1)
  have "2 ^ ?e \<le> - x" using True by (rule exponent_up_le)
  with assms(2) have "(2::real) ^ ?e \<le> 2 ^ k" by linarith
  then have "?e \<le> k" by simp
  then have "?e \<le> k + 52" by simp
  then have "of_int (2 ^ (k + 52 - ?e)) * ulp \<bar>x\<bar> = 2 ^ k"
    unfolding u by (rule pow2_grid [symmetric])
  then have "of_int (- (2 ^ (k + 52 - ?e))) * ulp \<bar>x\<bar> = - (2 ^ k)"
    by (simp only: of_int_minus mult_minus_left)
  from grid_ge [OF x0 this assms(2)] show ?thesis .
next
  case False
  from assms have x0: "x \<noteq> 0" and ax: "\<bar>x\<bar> = - x" by simp_all
  from False have lt: "- x < 1" by simp
  have "of_int (2 ^ exponent_down 1022 (- x) * 2 ^ 52) * ulp \<bar>x\<bar> = 1"
    unfolding ax using lt by (rule one_grid_lt_1)
  then have g: "of_int (- (2 ^ exponent_down 1022 (- x) * 2 ^ 52)) * ulp \<bar>x\<bar> = - 1"
    by (simp only: of_int_minus mult_minus_left)
  from lt have "- 1 \<le> x" by simp
  from grid_ge [OF x0 g this] have "- 1 \<le> round_double x" .
  moreover have "(1::real) \<le> 2 ^ k" by simp
  ultimately show ?thesis by linarith
qed

lemma round_double_abs_le_pow2:
  assumes "\<bar>x\<bar> \<le> 2 ^ k"
  shows "\<bar>round_double x\<bar> \<le> 2 ^ k"
proof -
  consider "x = 0" | "0 < x" | "x < 0" by linarith
  then show ?thesis
  proof cases
    case 1
    then show ?thesis by (simp add: round_double_def)
  next
    case 2
    with assms have "round_double x \<le> 2 ^ k" by (intro round_double_le_pow2) simp_all
    moreover have "0 \<le> round_double x" using 2 by (intro round_double_nonneg) simp
    ultimately show ?thesis by simp
  next
    case 3
    with assms have "- (2 ^ k) \<le> round_double x" by (intro round_double_ge_neg_pow2) simp_all
    moreover have "round_double x \<le> 0" using 3 by (intro round_double_nonpos) simp
    ultimately show ?thesis by simp
  qed
qed


lemma round_double_ge_100:
  assumes "100 \<le> x"
  shows "100 \<le> round_double x"
proof -
  let ?e = "exponent_up 1024 x"
  from assms have x0: "x \<noteq> 0" and ax: "\<bar>x\<bar> = x" and x1: "1 \<le> x" by simp_all
  have u: "ulp \<bar>x\<bar> = 2 ^ ?e / 2 ^ 52" using x1 ax by (simp add: ulp_ge_1)
  have "(2::real) ^ 6 \<le> x" using assms by simp
  then have e6: "6 \<le> ?e" by (rule exponent_up_ge) simp
  show ?thesis
  proof (cases "?e = 6")
    case True
    have "of_int (100 * 2 ^ 46) * ulp \<bar>x\<bar> = 100"
      unfolding u True by simp
    from grid_ge [OF x0 this assms] show ?thesis .
  next
    case False
    with e6 have "7 \<le> ?e" by simp
    then have "(2::real) ^ 7 \<le> 2 ^ ?e" by (rule power_increasing) simp
    moreover have "2 ^ ?e \<le> x" using x1 by (rule exponent_up_le)
    ultimately have "(2::real) ^ 7 \<le> x" by linarith
    then have "(2::real) ^ 7 \<le> round_double x" by (rule round_double_ge_pow2)
    then show ?thesis by simp
  qed
qed

lemma exponent_up_lt_pow2:
  assumes "1 \<le> x" and "x < 2 ^ k"
  shows "exponent_up 1024 x < k"
proof -
  have "2 ^ exponent_up 1024 x \<le> x" using assms(1) by (rule exponent_up_le)
  with assms(2) have "(2::real) ^ exponent_up 1024 x < 2 ^ k" by linarith
  then show ?thesis by simp
qed

text \<open>Integers and halves of integers below \<open>2\<^sup>5\<^sup>3\<close> are doubles.\<close>

lemma round_double_of_nat:
  assumes "n < 2 ^ 53"
  shows "round_double (real n) = real n"
proof (cases "n = 0")
  case True
  then show ?thesis by (simp add: round_double_def)
next
  case False
  let ?x = "real n"
  let ?e = "exponent_up 1024 ?x"
  from False have x1: "1 \<le> ?x" by simp
  have "?x < 2 ^ 53" using assms by (metis of_nat_less_iff of_nat_numeral of_nat_power)
  with x1 have "?e < 53" by (rule exponent_up_lt_pow2)
  then have e: "?e \<le> 52" by simp
  have u: "ulp \<bar>?x\<bar> = 2 ^ ?e / 2 ^ 52" using x1 by (simp add: ulp_ge_1)
  have "(2::real) ^ (52 - ?e) * 2 ^ ?e = 2 ^ 52"
    using e by (simp add: power_add [symmetric])
  then have "?x = of_int (int n * 2 ^ (52 - ?e)) * (2 ^ ?e / 2 ^ 52)"
    by (simp add: field_simps)
  then have "?x = of_int (int n * 2 ^ (52 - ?e)) * ulp \<bar>?x\<bar>"
    unfolding u .
  then show ?thesis by (rule round_double_grid)
qed

lemma exponent_down_half: "exponent_down 1022 (1 / 2) = 1"
  by code_simp

lemma round_double_half:
  assumes "m < 2 ^ 53"
  shows "round_double (real m / 2) = real m / 2"
proof -
  consider "m = 0" | "m = 1" | "2 \<le> m" by linarith
  then show ?thesis
  proof cases
    case 1
    then show ?thesis by (simp add: round_double_def)
  next
    case 2
    have "ulp \<bar>1 / 2\<bar> = 1 / (2 * 2 ^ 52)"
      by (simp add: ulp_def exponent_down_half)
    then have "(1 / 2 :: real) = of_int (2 ^ 52) * ulp \<bar>1 / 2\<bar>" by simp
    then have "round_double (1 / 2) = 1 / 2" by (rule round_double_grid)
    with 2 show ?thesis by simp
  next
    case 3
    let ?x = "real m / 2"
    let ?e = "exponent_up 1024 ?x"
    from 3 have x1: "1 \<le> ?x" by simp
    have "real m < 2 ^ 53" using assms by (metis of_nat_less_iff of_nat_numeral of_nat_power)
    then have "?x < 2 ^ 52" by simp
    with x1 have "?e < 52" by (rule exponent_up_lt_pow2)
    then have e: "?e \<le> 51" by simp
    have u: "ulp \<bar>?x\<bar> = 2 ^ ?e / 2 ^ 52" using x1 by (simp add: ulp_ge_1)
    have "(2::real) ^ (51 - ?e) * 2 ^ ?e = 2 ^ 51"
      using e by (simp add: power_add [symmetric])
    then have "?x = of_int (int m * 2 ^ (51 - ?e)) * (2 ^ ?e / 2 ^ 52)"
      by (simp add: field_simps)
    then have "?x = of_int (int m * 2 ^ (51 - ?e)) * ulp \<bar>?x\<bar>"
      unfolding u .
    then show ?thesis by (rule round_double_grid)
  qed
qed

text \<open>In the normal range the unit is at most \<open>2\<^sup>-\<^sup>5\<^sup>2\<close> of the number.\<close>

lemma ulp_relative:
  assumes "0 < x" and "1 \<le> x * 2 ^ 1022"
  shows "ulp x \<le> x / 2 ^ 52"
proof (cases "1 \<le> x")
  case True
  then have "2 ^ exponent_up 1024 x \<le> x" by (rule exponent_up_le)
  with True show ?thesis by (simp add: ulp_ge_1 divide_right_mono)
next
  case False
  let ?d = "exponent_down 1022 x"
  have "1 \<le> x * 2 ^ ?d" using assms by (rule exponent_down_reach)
  then have "1 / 2 ^ ?d \<le> x" by (simp add: field_simps)
  then have "1 / 2 ^ ?d / 2 ^ 52 \<le> x / 2 ^ 52" by (rule divide_right_mono) simp
  with False show ?thesis by (simp add: ulp_lt_1)
qed


text \<open>
  Rounding the quotient of two integers to a double does not move it across a half:
  \<open>Math.round\<close> of the double is the quotient rounded half up.
\<close>

lemma round_quotient:
  assumes n: "0 < n" "n < 2 ^ 53" and s: "S < 2 ^ 52"
  shows "\<lfloor>round_double (real S / real n) + 1 / 2\<rfloor> = \<lfloor>real S / real n + 1 / 2\<rfloor>"
proof (cases "S = 0")
  case True
  then show ?thesis by (simp add: round_double_def)
next
  case False
  define q where "q = real S / real n"
  define k where "k = \<lfloor>q + 1 / 2\<rfloor>"
  have n0: "0 < real n" using n by simp
  have S0: "0 < real S" using False by simp
  have q0: "0 < q" unfolding q_def using n0 S0 by simp
  have qn: "q * real n = real S" unfolding q_def using n0 by simp
  have Slt: "real S < 2 ^ 52" using s by (metis of_nat_less_iff of_nat_numeral of_nat_power)
  have nlt: "real n < 2 ^ 53" using n by (metis of_nat_less_iff of_nat_numeral of_nat_power)
  \<comment> \<open>the quotient is in the normal range\<close>
  have "1 \<le> real S" using False by simp
  then have "1 / real n \<le> q" unfolding q_def using n0 by (simp add: divide_right_mono)
  moreover have "1 / 2 ^ 53 < 1 / real n" using nlt n0 by (simp add: field_simps)
  ultimately have "1 / 2 ^ 53 < q" by linarith
  then have "1 \<le> q * 2 ^ 53" by (simp add: field_simps)
  moreover have "q * 2 ^ 53 \<le> q * 2 ^ 1022"
    using q0 by (intro mult_left_mono power_increasing) simp_all
  ultimately have "1 \<le> q * 2 ^ 1022" by linarith
  with q0 have "ulp q \<le> q / 2 ^ 52" by (rule ulp_relative)
  moreover have "\<bar>round_double q - q\<bar> \<le> ulp \<bar>q\<bar> / 2" by (rule round_double_err)
  ultimately have err0: "\<bar>round_double q - q\<bar> \<le> q / 2 ^ 53" using q0 by simp
  define e where "e = q / 2 ^ 53"
  define d where "d = 1 / (2 * real n)"
  have err: "round_double q - q \<le> e" "q - round_double q \<le> e"
    using err0 unfolding e_def by linarith+
  \<comment> \<open>the error is less than the distance to the next half\<close>
  have "q * real n * 2 < 2 ^ 53" unfolding qn using Slt by simp
  then have small: "e < d" unfolding e_def d_def using n0 by (simp add: field_simps)
  have k1: "of_int k \<le> q + 1 / 2" and k2: "q + 1 / 2 < of_int k + 1"
    unfolding k_def by linarith+
  have "2 * of_int k - 1 \<le> 2 * q" using k1 by simp
  then have "(2 * of_int k - 1) * real n \<le> (2 * q) * real n"
    using n0 by (intro mult_right_mono) simp_all
  then have "(2 * of_int k - 1) * real n \<le> 2 * (q * real n)" by (simp only: mult.assoc)
  then have "of_int ((2 * k - 1) * int n) \<le> (of_int (2 * int S) :: real)"
    unfolding qn by simp
  then have i1: "(2 * k - 1) * int n \<le> 2 * int S" by (simp only: of_int_le_iff)
  have "2 * q < 2 * of_int k + 1" using k2 by simp
  then have "(2 * q) * real n < (2 * of_int k + 1) * real n"
    using n0 by (intro mult_strict_right_mono) simp_all
  then have "2 * (q * real n) < (2 * of_int k + 1) * real n" by (simp only: mult.assoc)
  then have "(of_int (2 * int S) :: real) < of_int ((2 * k + 1) * int n)"
    unfolding qn by simp
  then have "2 * int S < (2 * k + 1) * int n" by (simp only: of_int_less_iff)
  then have "2 * int S + 1 \<le> (2 * k + 1) * int n" by simp
  then have "(of_int (2 * int S + 1) :: real) \<le> of_int ((2 * k + 1) * int n)"
    by (simp only: of_int_le_iff)
  then have "2 * (q * real n) + 1 \<le> (2 * of_int k + 1) * real n"
    unfolding qn by simp
  then have up: "q + d \<le> of_int k + 1 / 2"
    unfolding d_def using n0 by (simp add: field_simps)
  have upper: "round_double q + 1 / 2 < of_int k + 1"
    using err small up by linarith
  have lower: "of_int k \<le> round_double q + 1 / 2"
  proof (cases "(2 * k - 1) * int n = 2 * int S")
    case True
    then have "(of_int ((2 * k - 1) * int n) :: real) = of_int (2 * int S)" by simp
    then have "(2 * of_int k - 1) * real n = 2 * (q * real n)" unfolding qn by simp
    then have "(2 * of_int k - 1) * real n = (2 * q) * real n" by (simp only: mult.assoc)
    then have "2 * of_int k - 1 = 2 * q" using n0 by (simp only: mult_right_cancel)
    then have qk: "q = (2 * of_int k - 1) / 2" by simp
    with q0 have "0 < 2 * k - 1" by (simp add: field_simps)
    then obtain m where m: "2 * k - 1 = int m" using zero_less_imp_eq_int by blast
    then have qm: "q = real m / 2" using qk
      by (metis of_int_of_nat_eq of_int_diff of_int_mult of_int_numeral of_int_1)
    have "q \<le> q * real n" using q0 n by (simp add: mult_le_cancel_left1)
    then have "real m / 2 < 2 ^ 52" using qm qn Slt by linarith
    then have "real m < 2 ^ 53" by simp
    then have "m < 2 ^ 53" by (metis of_nat_less_iff of_nat_numeral of_nat_power)
    then have "round_double (real m / 2) = real m / 2" by (rule round_double_half)
    then have rq: "round_double q = q" by (simp only: qm)
    have "of_int k \<le> q + 1 / 2" by (rule k1)
    then show ?thesis by (simp only: rq)
  next
    case False
    with i1 have "(2 * k - 1) * int n + 1 \<le> 2 * int S" by simp
    then have "(of_int ((2 * k - 1) * int n + 1) :: real) \<le> of_int (2 * int S)"
      by (simp only: of_int_le_iff)
    then have "(2 * of_int k - 1) * real n + 1 \<le> 2 * (q * real n)" unfolding qn by simp
    then have "of_int k - 1 / 2 + d \<le> q"
      unfolding d_def using n0 by (simp add: field_simps)
    then show ?thesis using err small by linarith
  qed
  from lower upper have "\<lfloor>round_double q + 1 / 2\<rfloor> = k" by (simp add: floor_unique)
  then show ?thesis unfolding k_def q_def .
qed

subsection \<open>Operations on finite numbers\<close>

lemma fl_bounded:
  assumes "\<bar>x\<bar> \<le> 2 ^ k" and "k \<le> 1023"
  shows "fl x = Finite (round_double x)"
proof -
  have "\<bar>round_double x\<bar> \<le> 2 ^ k" using assms(1) by (rule round_double_abs_le_pow2)
  moreover have "(2::real) ^ k \<le> 2 ^ 1023" using assms(2) by (intro power_increasing) simp_all
  moreover have "(2::real) ^ 1023 < 2 ^ 1024" by (intro power_strict_increasing) simp_all
  ultimately have "\<bar>round_double x\<bar> < 2 ^ 1024" by linarith
  then have "\<not> 2 ^ 1024 \<le> round_double x" and "\<not> round_double x \<le> - (2 ^ 1024)"
    by linarith+
  then show ?thesis by (simp only: fl_def Let_def if_False)
qed

lemma fl_0: "fl 0 = Finite 0"
  by (simp add: fl_def round_double_def)

lemma fl_of_nat: "n < 2 ^ 53 \<Longrightarrow> fl (real n) = Finite (real n)"
proof -
  assume n: "n < 2 ^ 53"
  then have "real n < 2 ^ 53" by (metis of_nat_less_iff of_nat_numeral of_nat_power)
  then have "\<bar>real n\<bar> \<le> 2 ^ 53" by simp
  then have "fl (real n) = Finite (round_double (real n))" by (rule fl_bounded) simp
  with n show ?thesis by (simp only: round_double_of_nat)
qed

lemma fl_ge:
  assumes "d \<le> round_double x" and "0 \<le> d"
  shows "fl x = PosInfinity \<or> fl x = Finite (round_double x)"
proof -
  have "(0::real) < 2 ^ 1024" by simp
  with assms have "\<not> round_double x \<le> - (2 ^ 1024)" by linarith
  then show ?thesis by (simp add: fl_def Let_def)
qed

lemma Math_min_Finite: "Math_min (Finite a) (Finite b) = Finite (min a b)"
  by (simp add: min_def)

lemma Math_min_100: "\<not> num_gt (Math_min a (Finite 100)) (Finite 100)"
  by (cases a) (simp_all add: num_gt_def)

subsection \<open>Progress\<close>

text \<open>A percentage of 100 or more is reported as 100, also when it overflows.\<close>

lemma clamp_ge_100:
  assumes "100 \<le> v"
  shows "Math_min (Math_round (fl v)) (Finite 100) = Finite 100"
proof -
  have r: "100 \<le> round_double v" using assms by (rule round_double_ge_100)
  then consider "fl v = PosInfinity" | "fl v = Finite (round_double v)"
    using fl_ge [of 100 v] by auto
  then show ?thesis
  proof cases
    case 1
    then show ?thesis by simp
  next
    case 2
    define a where "a = \<lfloor>round_double v + 1 / 2\<rfloor>"
    have "100 \<le> a" unfolding a_def using r by linarith
    then have "min (real_of_int a) 100 = 100" by simp
    then show ?thesis by (simp only: 2 Math_round.simps Math_min_Finite a_def [symmetric])
  qed
qed

lemma calculateProgress_above_goal:
  assumes "num_lt (Finite 0) goal" and "num_lt goal current"
  shows "calculateProgress current goal = Finite 100"
proof -
  have "\<not> num_lt PosInfinity current" by (cases current) simp_all
  with assms obtain g where goal: "goal = Finite g" and g: "0 < g"
    by (cases goal) simp_all
  from assms(2) goal consider "current = PosInfinity" | c where "current = Finite c" "g < c"
    by (cases current) simp_all
  then show ?thesis
  proof cases
    case 1
    with goal g show ?thesis by (simp add: calculateProgress_def signed_infinity_def)
  next
    case 2
    with g have "1 < c / g" by simp
    then have "2 ^ 0 \<le> c / g" by simp
    then have q: "2 ^ 0 \<le> round_double (c / g)" by (rule round_double_ge_pow2)
    then consider "fl (c / g) = PosInfinity" | "fl (c / g) = Finite (round_double (c / g))"
      using fl_ge [of "2 ^ 0" "c / g"] by auto
    then show ?thesis
    proof cases
      case 1
      with 2 goal g show ?thesis by (simp add: calculateProgress_def signed_infinity_def)
    next
      case 2
      from q have "100 \<le> round_double (c / g) * 100" by simp
      then have "Math_min (Math_round (fl (round_double (c / g) * 100))) (Finite 100)
                   = Finite 100"
        by (rule clamp_ge_100)
      with 2 \<open>current = Finite c\<close> goal g show ?thesis
        by (simp add: calculateProgress_def)
    qed
  qed
qed

lemma calculateProgress_finite:
  assumes "g \<noteq> 0" and "\<bar>c\<bar> \<le> 2 ^ 1000 * \<bar>g\<bar>"
  shows "calculateProgress (Finite c) (Finite g)
           = Finite (min (of_int \<lfloor>double_percentage c g + 1 / 2\<rfloor>) 100)"
proof -
  from assms have "\<bar>c\<bar> / \<bar>g\<bar> \<le> 2 ^ 1000" by (simp add: field_simps)
  then have quotient: "\<bar>c / g\<bar> \<le> 2 ^ 1000" by simp
  then have q: "fl (c / g) = Finite (round_double (c / g))" by (rule fl_bounded) simp
  from quotient have "\<bar>round_double (c / g)\<bar> \<le> 2 ^ 1000"
    by (rule round_double_abs_le_pow2)
  then have "\<bar>round_double (c / g)\<bar> * 100 \<le> 2 ^ 1000 * 2 ^ 7" by simp
  then have "\<bar>round_double (c / g) * 100\<bar> \<le> 2 ^ 1007" by (simp add: abs_mult)
  then have "fl (round_double (c / g) * 100) = Finite (double_percentage c g)"
    unfolding double_percentage_def by (rule fl_bounded) simp
  with q assms(1) show ?thesis
    by (simp add: calculateProgress_def Math_min_Finite)
qed

text \<open>
  The rounding of the quotient is visible: \<open>1150 / 2000 * 100\<close> is 57.5, which would round
  to 58, and \<open>calculateProgress(1150, 2000)\<close> is 57, since the double nearest to
  \<open>1150 / 2000\<close> lies below it and so does the product.
\<close>

lemma double_percentage_1150_2000:
  "double_percentage 1150 2000 = 8092405580431359 / 140737488355328"
  by code_simp

lemma double_percentage_1_8: "double_percentage 1 8 = 25 / 2"
  by code_simp

lemma double_percentage_1_minus_1: "double_percentage 1 (- 1) = - 100"
  by code_simp

lemma calculateProgress_1150_2000:
  "calculateProgress (Finite 1150) (Finite 2000) = Finite 57 \<and>
   \<lfloor>progressPercentage_spec 1150 2000 + 1 / 2\<rfloor> = 58"
  using calculateProgress_finite [of 2000 1150]
  by (simp add: double_percentage_1150_2000 progressPercentage_spec_def)

text \<open>
  C4, as stated, fails twice. \<open>calculateProgress(1, 8)\<close> is 13 and not
  \<open>min(1/8 * 100, 100) = 12.5\<close>, since the percentage goes through \<open>Math.round\<close>; and
  \<open>calculateProgress(1, -1)\<close> is \<open>-100\<close> although \<open>1 > -1\<close>.
\<close>

theorem calculateProgress_counterexample:
  "calculateProgress (Finite 1) (Finite 8) = Finite 13 \<and>
   progressPercentage_spec 1 8 = 25 / 2 \<and>
   num_lt (Finite (- 1)) (Finite 1) \<and>
   calculateProgress (Finite 1) (Finite (- 1)) = Finite (- 100)"
  using calculateProgress_finite [of 8 1] calculateProgress_finite [of "- 1" 1]
  by (simp add: double_percentage_1_8 double_percentage_1_minus_1 progressPercentage_spec_def)

text \<open>
  C4, amended: for every pair \<open>(current, goal)\<close> of numbers, \<open>calculateProgress\<close> returns
  exactly 0 when \<open>goal = 0\<close>, never reports a value above 100, and returns exactly 100
  whenever \<open>current > goal > 0\<close>; for a finite pair with \<open>goal \<noteq> 0\<close> and a quotient of
  magnitude up to \<open>2 ^ 1000\<close> it returns \<open>min(Math.round(current/goal * 100), 100)\<close>, the
  quotient and the product each being the nearest double.
\<close>

theorem calculateProgress_rounded_clamped:
  "calculateProgress current (Finite 0) = Finite 0 \<and>
   \<not> num_gt (calculateProgress current goal) (Finite 100) \<and>
   (num_lt (Finite 0) goal \<and> num_lt goal current
      \<longrightarrow> calculateProgress current goal = Finite 100) \<and>
   (g \<noteq> 0 \<and> \<bar>c\<bar> \<le> 2 ^ 1000 * \<bar>g\<bar>
      \<longrightarrow> calculateProgress (Finite c) (Finite g)
            = Finite (min (of_int \<lfloor>double_percentage c g + 1 / 2\<rfloor>) 100))"
proof -
  have zero: "calculateProgress current (Finite 0) = Finite 0"
    by (simp add: calculateProgress_def)
  have capped: "\<not> num_gt (calculateProgress current goal) (Finite 100)"
  proof (cases "goal = Finite 0")
    case True
    then show ?thesis by (simp add: calculateProgress_def num_gt_def)
  next
    case False
    then show ?thesis by (simp only: calculateProgress_def if_False Math_min_100 not_False_eq_True)
  qed
  from zero capped calculateProgress_above_goal calculateProgress_finite
  show ?thesis by blast
qed

theorem calculateProgress_rounded_clamped_witness:
  "calculateProgress (Finite 5) (Finite 0) = Finite 0 \<and>
   calculateProgress (Finite 2500) (Finite 2000) = Finite 100 \<and>
   calculateProgress (Finite 1150) (Finite 2000) = Finite 57"
  using calculateProgress_rounded_clamped
    [where current = "Finite 5" and goal = "Finite 2000" and c = 1150 and g = 2000]
    calculateProgress_rounded_clamped
    [where current = "Finite 2500" and goal = "Finite 2000" and c = 1150 and g = 2000]
  by (simp add: double_percentage_1150_2000)

subsection \<open>Averages\<close>

text \<open>The fold of \<open>getWeeklyAverages\<close> keeps four independent accumulators.\<close>

lemma foldl_totals:
  "foldl (\<lambda>acc entry.
       \<lparr>water_total = num_add (water_total acc) (Finite (or_zero (water_ml entry))),
        calories_total = num_add (calories_total acc) (Finite (or_zero (calories entry))),
        steps_total = num_add (steps_total acc) (Finite (or_zero (steps entry))),
        count_total = count_total acc + 1\<rparr>) acc es =
   \<lparr>water_total =
      foldl (\<lambda>a e. num_add a (Finite (or_zero (water_ml e)))) (water_total acc) es,
    calories_total =
      foldl (\<lambda>a e. num_add a (Finite (or_zero (calories e)))) (calories_total acc) es,
    steps_total =
      foldl (\<lambda>a e. num_add a (Finite (or_zero (steps e)))) (steps_total acc) es,
    count_total = count_total acc + length es\<rparr>"
  by (induction es arbitrary: acc) simp_all

text \<open>Below \<open>2 ^ 53\<close> the sum of whole numbers is exact.\<close>

lemma foldl_num_add_nat:
  "k + sum_list (map g es) < 2 ^ 53
   \<Longrightarrow> foldl (\<lambda>a e. num_add a (Finite (real (g e)))) (Finite (real k)) es
       = Finite (real (k + sum_list (map g es)))"
proof (induction es arbitrary: k)
  case Nil
  then show ?case by simp
next
  case (Cons e es)
  from Cons.prems have "k + g e < 2 ^ 53" by simp
  then have "fl (real (k + g e)) = Finite (real (k + g e))" by (rule fl_of_nat)
  then have step: "num_add (Finite (real k)) (Finite (real (g e))) = Finite (real (k + g e))"
    by simp
  from Cons.prems have "(k + g e) + sum_list (map g es) < 2 ^ 53" by (simp add: add.assoc)
  then have "foldl (\<lambda>a e. num_add a (Finite (real (g e)))) (Finite (real (k + g e))) es
       = Finite (real ((k + g e) + sum_list (map g es)))"
    by (rule Cons.IH)
  then show ?case by (simp only: foldl_Cons step list.map sum_list.Cons add.assoc)
qed

lemma whole_metric_nat:
  assumes "whole_metric m hi" and "hi \<le> 100000"
  shows "or_zero m = real (nat \<lfloor>or_zero m\<rfloor>) \<and> nat \<lfloor>or_zero m\<rfloor> \<le> 100000"
proof (cases m)
  case None
  then show ?thesis by (simp add: or_zero_def)
next
  case (Some r)
  with assms have r: "0 \<le> r" "r \<le> 100000" "of_int \<lfloor>r\<rfloor> = r"
    by (simp_all add: whole_metric_def)
  have oz: "or_zero m = r" using Some by (simp add: or_zero_def)
  from r(1) have "0 \<le> \<lfloor>r\<rfloor>" by simp
  then have "real (nat \<lfloor>r\<rfloor>) = of_int \<lfloor>r\<rfloor>" by simp
  with r(3) have a: "real (nat \<lfloor>r\<rfloor>) = r" by simp
  from r(2) have "\<lfloor>r\<rfloor> \<le> 100000" by linarith
  then have "nat \<lfloor>r\<rfloor> \<le> nat 100000" by (rule nat_mono)
  then have "nat \<lfloor>r\<rfloor> \<le> 100000" by simp
  with a oz show ?thesis by simp
qed

lemma sum_list_le_length:
  "\<forall>e\<in>set es. g e \<le> (c::nat) \<Longrightarrow> sum_list (map g es) \<le> length es * c"
  by (induction es) auto

lemma rounded_mean_whole:
  assumes es: "es \<noteq> []" and len: "length es < 2 ^ 32"
    and whole: "\<forall>e\<in>set es. f e = real (nat \<lfloor>f e\<rfloor>) \<and> nat \<lfloor>f e\<rfloor> \<le> 100000"
  shows "Math_round
           (num_div (foldl (\<lambda>a e. num_add a (Finite (f e))) (Finite 0) es)
                    (Finite (real (length es))))
         = Finite (of_int \<lfloor>mean (map f es) + 1 / 2\<rfloor>)"
proof -
  define g where "g = (\<lambda>e. nat \<lfloor>f e\<rfloor>)"
  define S where "S = sum_list (map g es)"
  define n where "n = length es"
  have fg: "f e = real (g e)" if "e \<in> set es" for e
    using whole that by (simp add: g_def)
  have n0: "0 < n" using es by (simp add: n_def)
  have n32: "n < 2 ^ 32" using len by (simp add: n_def)
  have "S \<le> n * 100000"
    unfolding S_def n_def using whole by (intro sum_list_le_length) (simp add: g_def)
  also have "\<dots> < 2 ^ 32 * 100000" using n32 by simp
  also have "\<dots> < (2::nat) ^ 52" by simp
  finally have S52: "S < 2 ^ 52" .
  have "(2::nat) ^ 52 < 2 ^ 53" by simp
  with S52 have S53: "0 + S < 2 ^ 53" by simp
  have "(2::nat) ^ 32 < 2 ^ 53" by simp
  with n32 have n53: "n < 2 ^ 53" by simp
  have "foldl (\<lambda>a e. num_add a (Finite (f e))) (Finite 0) es
          = foldl (\<lambda>a e. num_add a (Finite (real (g e)))) (Finite (real 0)) es"
    by (rule foldl_cong) (simp_all add: fg)
  also have "\<dots> = Finite (real (0 + S))"
    unfolding S_def using S53 [unfolded S_def] by (rule foldl_num_add_nat)
  finally have total: "foldl (\<lambda>a e. num_add a (Finite (f e))) (Finite 0) es = Finite (real S)"
    by simp
  have "map f es = map (\<lambda>e. real (g e)) es" by (rule map_cong) (simp_all add: fg)
  then have "sum_list (map f es) = sum_list (map (\<lambda>e. real (g e)) es)"
    by (rule arg_cong)
  also have "\<dots> = real S" unfolding S_def by (induction es) simp_all
  finally have m: "mean (map f es) = real S / real n" by (simp add: mean_def n_def)
  have "real S \<le> real S * real n" using n0 by (simp add: mult_le_cancel_left1)
  then have "real S / real n \<le> real S" using n0 by (simp add: field_simps)
  moreover have "real S < 2 ^ 52" using S52 by (metis of_nat_less_iff of_nat_numeral of_nat_power)
  moreover have "0 \<le> real S / real n" by simp
  ultimately have "\<bar>real S / real n\<bar> \<le> 2 ^ 52" by simp
  then have q: "fl (real S / real n) = Finite (round_double (real S / real n))"
    by (rule fl_bounded) simp
  have "real n \<noteq> 0" using n0 by simp
  then have "num_div (Finite (real S)) (Finite (real n))
               = Finite (round_double (real S / real n))"
    using q by simp
  then have "Math_round (num_div (Finite (real S)) (Finite (real n)))
               = Finite (of_int \<lfloor>round_double (real S / real n) + 1 / 2\<rfloor>)"
    by simp
  also have "\<lfloor>round_double (real S / real n) + 1 / 2\<rfloor> = \<lfloor>real S / real n + 1 / 2\<rfloor>"
    using n0 n53 S52 by (rule round_quotient)
  finally show ?thesis by (simp only: total m n_def [symmetric])
qed


lemma getWeeklyAverages_entries:
  "getWeeklyAverages lc s a b =
     (let es = getEntriesForDateRange lc s a b in
      if es = []
      then \<lparr>water_avg = Finite 0, calories_avg = Finite 0, steps_avg = Finite 0,
            daysTracked = 0\<rparr>
      else
        \<lparr>water_avg = Math_round (num_div
           (foldl (\<lambda>a e. num_add a (Finite (or_zero (water_ml e)))) (Finite 0) es)
           (Finite (real (length es)))),
         calories_avg = Math_round (num_div
           (foldl (\<lambda>a e. num_add a (Finite (or_zero (calories e)))) (Finite 0) es)
           (Finite (real (length es)))),
         steps_avg = Math_round (num_div
           (foldl (\<lambda>a e. num_add a (Finite (or_zero (steps e)))) (Finite 0) es)
           (Finite (real (length es)))),
         daysTracked = length es\<rparr>)"
  unfolding getWeeklyAverages_def foldl_totals by (simp add: Let_def)

lemma mean_cong_mset:
  assumes "mset xs = mset ys"
  shows "mean (map f xs) = mean (map f ys)"
proof -
  have "sum_list (map f xs) = sum_list (map f ys)"
    using assms by (metis mset_map sum_mset_sum_list)
  moreover have "length xs = length ys"
    using assms by (rule mset_eq_length)
  ultimately show ?thesis by (simp add: mean_def)
qed

lemma getWeeklyAverages_none_found:
  assumes "DAILY_ENTRIES s = Some entries" and "found_in_range entries a b = []"
  shows "getWeeklyAverages lc s a b =
           \<lparr>water_avg = Finite 0, calories_avg = Finite 0, steps_avg = Finite 0,
            daysTracked = 0\<rparr>"
proof -
  have "mset (getEntriesForDateRange lc s a b) = mset (found_in_range entries a b)"
    using assms(1) by (rule mset_getEntriesForDateRange)
  with assms(2) have "getEntriesForDateRange lc s a b = []" by simp
  then show ?thesis by (simp add: getWeeklyAverages_entries)
qed

lemma getWeeklyAverages_daysTracked:
  assumes "DAILY_ENTRIES s = Some entries"
  shows "daysTracked (getWeeklyAverages lc s a b) = length (found_in_range entries a b)"
proof -
  have "mset (getEntriesForDateRange lc s a b) = mset (found_in_range entries a b)"
    using assms by (rule mset_getEntriesForDateRange)
  then have "length (getEntriesForDateRange lc s a b) = length (found_in_range entries a b)"
    by (rule mset_eq_length)
  then show ?thesis by (auto simp: getWeeklyAverages_entries Let_def)
qed

lemma getWeeklyAverages_whole:
  assumes stored: "DAILY_ENTRIES s = Some entries"
    and found: "found_in_range entries a b \<noteq> []"
    and len: "length (found_in_range entries a b) < 2 ^ 32"
    and whole: "list_all whole_metrics (found_in_range entries a b)"
  shows "getWeeklyAverages lc s a b =
           \<lparr>water_avg = Finite (of_int
              \<lfloor>mean (map (\<lambda>e. or_zero (water_ml e)) (found_in_range entries a b)) + 1 / 2\<rfloor>),
            calories_avg = Finite (of_int
              \<lfloor>mean (map (\<lambda>e. or_zero (calories e)) (found_in_range entries a b)) + 1 / 2\<rfloor>),
            steps_avg = Finite (of_int
              \<lfloor>mean (map (\<lambda>e. or_zero (steps e)) (found_in_range entries a b)) + 1 / 2\<rfloor>),
            daysTracked = length (found_in_range entries a b)\<rparr>"
proof -
  let ?es = "getEntriesForDateRange lc s a b"
  let ?found = "found_in_range entries a b"
  have m: "mset ?es = mset ?found" using stored by (rule mset_getEntriesForDateRange)
  then have l: "length ?es = length ?found" by (rule mset_eq_length)
  with found have es: "?es \<noteq> []" by auto
  from l len have len': "length ?es < 2 ^ 32" by simp
  have "set ?es = set ?found" using m by (rule mset_eq_setD)
  with whole have w: "\<forall>e\<in>set ?es. whole_metrics e" by (simp add: list_all_iff)
  have water: "\<forall>e\<in>set ?es. or_zero (water_ml e) = real (nat \<lfloor>or_zero (water_ml e)\<rfloor>)
                 \<and> nat \<lfloor>or_zero (water_ml e)\<rfloor> \<le> 100000"
    using w by (auto simp: whole_metrics_def intro!: whole_metric_nat)
  have calorie: "\<forall>e\<in>set ?es. or_zero (calories e) = real (nat \<lfloor>or_zero (calories e)\<rfloor>)
                 \<and> nat \<lfloor>or_zero (calories e)\<rfloor> \<le> 100000"
    using w by (auto simp: whole_metrics_def intro!: whole_metric_nat)
  have step: "\<forall>e\<in>set ?es. or_zero (steps e) = real (nat \<lfloor>or_zero (steps e)\<rfloor>)
                 \<and> nat \<lfloor>or_zero (steps e)\<rfloor> \<le> 100000"
    using w by (auto simp: whole_metrics_def intro!: whole_metric_nat)
  show ?thesis
    using es
    by (simp add: getWeeklyAverages_entries Let_def l [symmetric]
        rounded_mean_whole [OF es len' water] rounded_mean_whole [OF es len' calorie]
        rounded_mean_whole [OF es len' step] mean_cong_mset [OF m, symmetric])
qed


text \<open>
  Metrics that are not whole numbers pass validation, and for them the result need not be
  the rounded mean: for the stored doubles nearest to 0, 0.1 and 1.4 the sum rounds to 1.5,
  the quotient is 0.5 and \<open>getWeeklyAverages\<close> returns 1, while the mean of the three stored
  numbers is below one half and rounds to 0.
\<close>

lemma round_double_tenth: "round_double (1 / 10) = 3602879701896397 / 36028797018963968"
  by code_simp

lemma round_double_seven_fifths: "round_double (7 / 5) = 3152519739159347 / 2251799813685248"
  by code_simp

lemma fl_tenth: "fl (3602879701896397 / 36028797018963968) = Finite (3602879701896397 / 36028797018963968)"
proof -
  have "round_double (3602879701896397 / 36028797018963968) = 3602879701896397 / 36028797018963968"
    by code_simp
  moreover have "fl (3602879701896397 / 36028797018963968)
      = Finite (round_double (3602879701896397 / 36028797018963968))"
    by (rule fl_bounded [where k = 0]) simp_all
  ultimately show ?thesis by simp
qed

lemma fl_tenth_seven_fifths:
  "fl (3602879701896397 / 36028797018963968 + 3152519739159347 / 2251799813685248) = Finite (3 / 2)"
proof -
  have "round_double (3602879701896397 / 36028797018963968 + 3152519739159347 / 2251799813685248) = 3 / 2"
    by code_simp
  moreover have "fl (3602879701896397 / 36028797018963968 + 3152519739159347 / 2251799813685248)
      = Finite (round_double (3602879701896397 / 36028797018963968 + 3152519739159347 / 2251799813685248))"
    by (rule fl_bounded [where k = 1]) simp_all
  ultimately show ?thesis by simp
qed

lemma fl_half: "fl (1 / 2) = Finite (1 / 2)"
proof -
  have "round_double (1 / 2) = 1 / 2" using round_double_half [of 1] by simp
  moreover have "fl (1 / 2) = Finite (round_double (1 / 2))"
    by (rule fl_bounded [where k = 0]) simp_all
  ultimately show ?thesis by simp
qed

lemma getWeeklyAverages_fractional:
  "water_avg (getWeeklyAverages code_unit_compare
      (empty_storage\<lparr>DAILY_ENTRIES := Some fractional_entries\<rparr>) ''2025-01-01'' ''2025-01-07'')
     = Finite 1 \<and>
   \<lfloor>mean (map (\<lambda>e. or_zero (water_ml e))
       (found_in_range fractional_entries ''2025-01-01'' ''2025-01-07'')) + 1 / 2\<rfloor> = 0"
proof -
  have "getEntriesForDateRange code_unit_compare
      (empty_storage\<lparr>DAILY_ENTRIES := Some fractional_entries\<rparr>) ''2025-01-01'' ''2025-01-07''
    = map snd fractional_entries"
    by (simp add: getEntriesForDateRange_def fractional_entries_def empty_storage_def
        parse_or_empty_def Object_values_def array_sort_def code_unit_compare_def)
  then have "water_avg (getWeeklyAverages code_unit_compare
      (empty_storage\<lparr>DAILY_ENTRIES := Some fractional_entries\<rparr>) ''2025-01-01'' ''2025-01-07'')
     = Finite 1"
    unfolding getWeeklyAverages_entries
    apply (simp add: Let_def fractional_entries_def or_zero_def fl_0 round_double_tenth
        round_double_seven_fifths)
    apply (simp only: fl_tenth num_add.simps fl_tenth_seven_fifths)
    apply (simp add: fl_half)
    done
  moreover have "\<lfloor>mean (map (\<lambda>e. or_zero (water_ml e))
       (found_in_range fractional_entries ''2025-01-01'' ''2025-01-07'')) + 1 / 2\<rfloor> = 0"
    by (simp add: found_in_range_def fractional_entries_def mean_def or_zero_def
        round_double_tenth round_double_seven_fifths)
  ultimately show ?thesis by simp
qed


text \<open>When no entries document has been written the result is the all-zero window.\<close>

lemma getWeeklyAverages_no_document:
  "DAILY_ENTRIES s = None
   \<Longrightarrow> getWeeklyAverages lc s a b =
         \<lparr>water_avg = Finite 0, calories_avg = Finite 0, steps_avg = Finite 0,
          daysTracked = 0\<rparr>"
  by (simp add: getWeeklyAverages_entries getEntriesForDateRange_no_document)

text \<open>
  C6, as stated, fails: the three days found in the example have 1, 2 and 2 ml of water,
  whose arithmetic mean is 5/3, and \<open>getWeeklyAverages\<close> returns 2, since it passes every
  mean through \<open>Math.round\<close>.
\<close>

theorem getWeeklyAverages_mean_counterexample:
  "mean (map (\<lambda>e. or_zero (water_ml e))
      (found_in_range example_entries ''2025-01-01'' ''2025-01-07'')) = 5 / 3 \<and>
   water_avg (getWeeklyAverages code_unit_compare example_store ''2025-01-01'' ''2025-01-07'')
     = Finite 2"
  using getWeeklyAverages_whole
    [where s = example_store and entries = example_entries and lc = code_unit_compare
       and a = "''2025-01-01''" and b = "''2025-01-07''"]
  by (simp add: found_in_range_def example_store_def example_entries_def empty_storage_def
      mean_def or_zero_def whole_metrics_def whole_metric_def)

text \<open>
  C6, amended: for every range query on a stored entries map, \<open>getWeeklyAverages\<close> returns
  the all-zero result when no entry is found, and \<open>daysTracked\<close> is the number of entries
  found, not the number of calendar days of the range; when the entries found carry
  metrics as the data model has them (whole numbers within the validation bounds, or
  \<open>null\<close>, which counts as 0), each average is the arithmetic mean of the metric over the
  entries found only, rounded to the nearest integer by \<open>Math.round\<close>. An array has fewer
  than \<open>2 ^ 32\<close> elements.
\<close>

theorem getWeeklyAverages_rounded_means:
  assumes "DAILY_ENTRIES s = Some entries"
  shows
    "(let found = found_in_range entries a b in
        (found = [] \<longrightarrow>
           getWeeklyAverages localeCompare s a b =
             \<lparr>water_avg = Finite 0, calories_avg = Finite 0, steps_avg = Finite 0,
              daysTracked = 0\<rparr>) \<and>
        daysTracked (getWeeklyAverages localeCompare s a b) = length found \<and>
        (found \<noteq> [] \<and> length found < 2 ^ 32 \<and> list_all whole_metrics found \<longrightarrow>
           getWeeklyAverages localeCompare s a b =
             \<lparr>water_avg =
                Finite (of_int \<lfloor>mean (map (\<lambda>e. or_zero (water_ml e)) found) + 1 / 2\<rfloor>),
              calories_avg =
                Finite (of_int \<lfloor>mean (map (\<lambda>e. or_zero (calories e)) found) + 1 / 2\<rfloor>),
              steps_avg =
                Finite (of_int \<lfloor>mean (map (\<lambda>e. or_zero (steps e)) found) + 1 / 2\<rfloor>),
              daysTracked = length found\<rparr>))"
  unfolding Let_def
  using getWeeklyAverages_none_found [OF assms] getWeeklyAverages_daysTracked [OF assms]
    getWeeklyAverages_whole [OF assms]
  by blast

theorem getWeeklyAverages_rounded_means_witness:
  "getWeeklyAverages code_unit_compare example_store ''2025-01-01'' ''2025-01-07''
     = \<lparr>water_avg = Finite 2, calories_avg = Finite 20, steps_avg = Finite 4,
        daysTracked = 3\<rparr> \<and>
   getWeeklyAverages code_unit_compare example_store ''2025-03-01'' ''2025-03-07''
     = \<lparr>water_avg = Finite 0, calories_avg = Finite 0, steps_avg = Finite 0,
        daysTracked = 0\<rparr>"
  using getWeeklyAverages_rounded_means
    [where localeCompare = code_unit_compare and s = example_store
       and entries = example_entries and a = "''2025-01-01''" and b = "''2025-01-07''"]
    getWeeklyAverages_rounded_means
    [where localeCompare = code_unit_compare and s = example_store
       and entries = example_entries and a = "''2025-03-01''" and b = "''2025-03-07''"]
  by (simp add: found_in_range_def example_store_def example_entries_def empty_storage_def
      mean_def or_zero_def whole_metrics_def whole_metric_def)

end
